theory Spec2Isabelle
  imports Main "HOL-Library.Word" "HOL-Library.Sublist"
begin

unbundle bit_operations_syntax

section \<open>Bytes, errors and the L2CAP connection\<close>

type_synonym byte = "8 word"
type_synonym u16 = "16 word"

text \<open>
  Errors a bearer hands to the client: \<open>io.ErrClosedPipe\<close>, the error
  \<open>fmt.Errorf("disconnected")\<close> that \<open>Loop\<close> makes of it, and any other error of the
  bearer, told apart by a number.
\<close>

datatype io_error = ErrClosedPipe | Disconnected | IOErr nat

text \<open>
  What a client call can end with. The three wrappers are the \<open>fmt.Errorf\<close> messages of
  \<open>sendReq\<close>, each around the error it wraps. \<open>Panic\<close> is a run-time panic of Go (index
  or slice bound out of range, integer division by zero, nil dereference). \<open>Blocks\<close> is
  not a return: the call waits on a channel operation that nothing in the model completes.
\<close>

datatype error =
    ErrInvalidArgument
  | ErrInvalidResponse
  | ATTError byte
  | ErrSendFailed io_error
  | ErrUnexpectedRsp io_error
  | ErrRequestFailed io_error
  | ErrSeqProtoTimeout
  | Panic
  | Blocks

type_synonym 'a res = "error + 'a"

text \<open>
  What one turn of the \<open>select\<close> in \<open>sendReq\<close> can see: a frame on \<open>rspc\<close>, an error
  on \<open>chErr\<close>, or the two-second timer of that turn. \<open>time.After\<close> is evaluated at
  every turn of the loop, so each turn waits two seconds of its own; the list of events
  gives what the turns see, one after the other, and holds no times.
\<close>

datatype event = EvRsp "byte list" | EvErr io_error | EvTimeout

text \<open>
  \<open>ble.Conn\<close> (src/conn.go) is an interface; the client uses \<open>RxMTU\<close>/\<open>TxMTU\<close> with
  their setters and \<open>Write\<close>. The record keeps the two MTUs, the frames \<open>Write\<close> has
  accepted, in order, and the environment: \<open>wfail\<close> gives the outcome of the coming
  calls of \<open>Write\<close> (head first, success once the list is used up), and \<open>peer\<close> gives
  what the remote device puts on the wire in reaction to a request.
\<close>

record conn =
  rxMTU :: int
  txMTU :: int
  written :: "byte list list"
  wfail :: "io_error option list"
  peer :: "byte list \<Rightarrow> event list"

definition SetRxMTU :: "int \<Rightarrow> conn \<Rightarrow> conn" where
  "SetRxMTU mtu l = l\<lparr>rxMTU := mtu\<rparr>"

definition SetTxMTU :: "int \<Rightarrow> conn \<Rightarrow> conn" where
  "SetTxMTU mtu l = l\<lparr>txMTU := mtu\<rparr>"

definition l2c_Write :: "byte list \<Rightarrow> conn \<Rightarrow> io_error option \<times> conn" where
  "l2c_Write b l =
     (case wfail l of
        [] \<Rightarrow> (None, l\<lparr>written := written l @ [b]\<rparr>)
      | None # w \<Rightarrow> (None, l\<lparr>written := written l @ [b], wfail := w\<rparr>)
      | Some e # w \<Rightarrow> (Some e, l\<lparr>wfail := w\<rparr>))"

section \<open>Constants and generated accessors of package att\<close>

text \<open>src/go.mod, lines 24 to 29 (the file holds const.go of package ble).\<close>

definition DefaultMTU :: int where
  "DefaultMTU = 339"

definition MaxMTU :: int where
  "MaxMTU = 512 + 3"

text \<open>
  Modelled from the spec: the opcode constants, the table \<open>rspOfReq\<close>, \<open>newErrorResponse\<close>
  and the field accessors of the request and response types of package att are generated
  code that is not under src/. The specification gives 0x1B, 0x1D and 0x1E, calls the
  table \<open>rspOf\<close>, gives the Error Response as opcode, request opcode, handle and code
  (five bytes), and names Bluetooth Core Vol 3 Part F for the wire format, from which the
  other numbers and the field offsets are taken.
\<close>

definition ErrorResponseCode :: byte where "ErrorResponseCode = 0x01"
definition ExchangeMTURequestCode :: byte where "ExchangeMTURequestCode = 0x02"
definition ExchangeMTUResponseCode :: byte where "ExchangeMTUResponseCode = 0x03"
definition FindInformationRequestCode :: byte where "FindInformationRequestCode = 0x04"
definition FindInformationResponseCode :: byte where "FindInformationResponseCode = 0x05"
definition FindByTypeValueRequestCode :: byte where "FindByTypeValueRequestCode = 0x06"
definition FindByTypeValueResponseCode :: byte where "FindByTypeValueResponseCode = 0x07"
definition ReadByTypeRequestCode :: byte where "ReadByTypeRequestCode = 0x08"
definition ReadByTypeResponseCode :: byte where "ReadByTypeResponseCode = 0x09"
definition ReadRequestCode :: byte where "ReadRequestCode = 0x0A"
definition ReadResponseCode :: byte where "ReadResponseCode = 0x0B"
definition ReadBlobRequestCode :: byte where "ReadBlobRequestCode = 0x0C"
definition ReadBlobResponseCode :: byte where "ReadBlobResponseCode = 0x0D"
definition ReadMultipleRequestCode :: byte where "ReadMultipleRequestCode = 0x0E"
definition ReadMultipleResponseCode :: byte where "ReadMultipleResponseCode = 0x0F"
definition ReadByGroupTypeRequestCode :: byte where "ReadByGroupTypeRequestCode = 0x10"
definition ReadByGroupTypeResponseCode :: byte where "ReadByGroupTypeResponseCode = 0x11"
definition WriteRequestCode :: byte where "WriteRequestCode = 0x12"
definition WriteResponseCode :: byte where "WriteResponseCode = 0x13"
definition PrepareWriteRequestCode :: byte where "PrepareWriteRequestCode = 0x16"
definition PrepareWriteResponseCode :: byte where "PrepareWriteResponseCode = 0x17"
definition ExecuteWriteRequestCode :: byte where "ExecuteWriteRequestCode = 0x18"
definition ExecuteWriteResponseCode :: byte where "ExecuteWriteResponseCode = 0x19"
definition HandleValueNotificationCode :: byte where "HandleValueNotificationCode = 0x1B"
definition HandleValueIndicationCode :: byte where "HandleValueIndicationCode = 0x1D"
definition HandleValueConfirmationCode :: byte where "HandleValueConfirmationCode = 0x1E"

definition ErrReqNotSupp :: byte where "ErrReqNotSupp = 0x06"

text \<open>
  Modelled from the spec: \<open>rspOfReq\<close>, a Go map from request opcode to response opcode;
  a key that is absent reads as the zero byte.
\<close>

definition rspOfReq :: "byte \<Rightarrow> byte" where
  "rspOfReq r =
     (if r = ExchangeMTURequestCode then ExchangeMTUResponseCode
      else if r = FindInformationRequestCode then FindInformationResponseCode
      else if r = FindByTypeValueRequestCode then FindByTypeValueResponseCode
      else if r = ReadByTypeRequestCode then ReadByTypeResponseCode
      else if r = ReadRequestCode then ReadResponseCode
      else if r = ReadBlobRequestCode then ReadBlobResponseCode
      else if r = ReadMultipleRequestCode then ReadMultipleResponseCode
      else if r = ReadByGroupTypeRequestCode then ReadByGroupTypeResponseCode
      else if r = WriteRequestCode then WriteResponseCode
      else if r = PrepareWriteRequestCode then PrepareWriteResponseCode
      else if r = ExecuteWriteRequestCode then ExecuteWriteResponseCode
      else if r = HandleValueIndicationCode then HandleValueConfirmationCode
      else 0)"

definition lo8 :: "u16 \<Rightarrow> byte" where
  "lo8 v = ucast v"

definition hi8 :: "u16 \<Rightarrow> byte" where
  "hi8 v = ucast (drop_bit 8 v)"

definition le16 :: "byte \<Rightarrow> byte \<Rightarrow> u16" where
  "le16 a b = (ucast a) OR (push_bit 8 (ucast b))"

text \<open>Modelled from the spec: \<open>newErrorResponse(op, h, code)\<close>, the five bytes.\<close>

definition newErrorResponse :: "byte \<Rightarrow> u16 \<Rightarrow> byte \<Rightarrow> byte list" where
  "newErrorResponse op h code = [ErrorResponseCode, op, lo8 h, hi8 h, code]"

text \<open>
  Modelled from the spec: the setters write into the slice the request type is cast
  from. A slice is modelled with a flag that turns false at the first index out of range
  (where Go panics); the bytes set before stay set. \<open>set8 i v\<close> is \<open>r[i] = v\<close>,
  \<open>put16 i v\<close> is \<open>binary.LittleEndian.PutUint16(r[i:], v)\<close> and \<open>copy_at i src\<close> is
  \<open>copy(r[i:], src)\<close>, which copies as many bytes as fit.
\<close>

type_synonym slice = "bool \<times> byte list"

definition set8 :: "nat \<Rightarrow> byte \<Rightarrow> slice \<Rightarrow> slice" where
  "set8 i v s = (case s of (ok, r) \<Rightarrow>
     if ok \<and> i < length r then (True, r[i := v]) else (False, r))"

definition put16 :: "nat \<Rightarrow> u16 \<Rightarrow> slice \<Rightarrow> slice" where
  "put16 i v s = (case s of (ok, r) \<Rightarrow>
     if ok \<and> i + 2 \<le> length r then (True, r[i := lo8 v, i + 1 := hi8 v]) else (False, r))"

definition copy_at :: "nat \<Rightarrow> byte list \<Rightarrow> slice \<Rightarrow> slice" where
  "copy_at i src s = (case s of (ok, r) \<Rightarrow>
     if ok \<and> i \<le> length r
     then (let n = min (length r - i) (length src)
           in (True, take i r @ take n src @ drop (i + n) r))
     else (False, r))"

text \<open>
  Modelled from the spec: \<open>AttributeOpcode()\<close> of a response type. The accessor is
  generated code outside src/; it either returns the opcode the type declares or reads
  the first byte of the frame. The model takes the choice as a parameter, and every
  theorem below that does not name one holds for both.
\<close>

datatype getter = Declared | FirstByte

fun AttributeOpcode :: "getter \<Rightarrow> byte \<Rightarrow> byte list \<Rightarrow> byte" where
  "AttributeOpcode Declared code r = code"
| "AttributeOpcode FirstByte code r = hd r"

section \<open>The ATT client (src/linux/att/client.go)\<close>

text \<open>
  The fields of \<open>Client\<close> the request path uses: the connection, the channel
  \<open>chTxBuf\<close> (capacity 1) as the list of buffers it holds, and \<open>events\<close>, what the
  coming turns of the \<open>select\<close> of \<open>sendReq\<close> will see, in order. A frame that
  \<open>Loop\<close> could not hand over before a request ended stays first in line for the next.
\<close>

record client =
  l2c :: conn
  chTxBuf :: "byte list list"
  events :: "event list"


text \<open>
  The loop of \<open>sendReq\<close>, on the events still to come. With nothing left to arrive the
  timer fires. \<open>rsp[0]\<close> and \<open>b[0]\<close> panic on an empty slice; \<open>b[0]\<close> is read only
  when the first test of the disjunction fails.
\<close>

fun await :: "byte list \<Rightarrow> event list \<Rightarrow> conn \<Rightarrow> byte list res \<times> event list \<times> conn" where
  "await b [] l = (Inl ErrSeqProtoTimeout, [], l)"
| "await b (EvTimeout # evs) l = (Inl ErrSeqProtoTimeout, evs, l)"
| "await b (EvErr e # evs) l = (Inl (ErrRequestFailed e), evs, l)"
| "await b (EvRsp rsp # evs) l =
     (case rsp of
        [] \<Rightarrow> (Inl Panic, evs, l)
      | r0 # _ \<Rightarrow>
          if r0 = ErrorResponseCode then (Inr rsp, evs, l)
          else (case b of
                  [] \<Rightarrow> (Inl Panic, evs, l)
                | b0 # _ \<Rightarrow>
                    if r0 = rspOfReq b0 then (Inr rsp, evs, l)
                    else (case l2c_Write (newErrorResponse r0 0x0000 ErrReqNotSupp) l of
                            (Some e, l') \<Rightarrow> (Inl (ErrUnexpectedRsp e), evs, l')
                          | (None, l') \<Rightarrow> await b evs l')))"

text \<open>
  \<open>sendReq\<close>: write the request, then wait. The peer's reaction to the request joins
  the events behind those already pending. The peer reacts to requests only: the Error
  Response written inside the loop is a response, which ATT never answers.
\<close>

definition sendReq :: "byte list \<Rightarrow> client \<Rightarrow> byte list res \<times> client" where
  "sendReq b c =
     (case l2c_Write b (l2c c) of
        (Some e, l') \<Rightarrow> (Inl (ErrSendFailed e), c\<lparr>l2c := l'\<rparr>)
      | (None, l') \<Rightarrow>
          (case await b (events c @ peer l' b) l' of
             (r, evs, l'') \<Rightarrow> (r, c\<lparr>l2c := l'', events := evs\<rparr>)))"

definition sendCmd :: "byte list \<Rightarrow> client \<Rightarrow> io_error option \<times> client" where
  "sendCmd b c = (case l2c_Write b (l2c c) of (e, l') \<Rightarrow> (e, c\<lparr>l2c := l'\<rparr>))"

text \<open>
  \<open>txBuf := <-c.chTxBuf\<close> with \<open>defer func() { c.chTxBuf <- txBuf }()\<close>. The receive
  blocks on an empty channel. The body returns its result, the buffer the variable
  \<open>txBuf\<close> then holds, and the client; the deferred send runs on every way out of the
  body, a panic too, and blocks when the channel is full.
\<close>

definition with_txBuf ::
  "(byte list \<Rightarrow> client \<Rightarrow> 'a res \<times> byte list \<times> client) \<Rightarrow> client \<Rightarrow> 'a res \<times> client" where
  "with_txBuf body c =
     (case chTxBuf c of
        [] \<Rightarrow> (Inl Blocks, c)
      | txBuf # q \<Rightarrow>
          (case body txBuf (c\<lparr>chTxBuf := q\<rparr>) of
             (r, txBuf', c') \<Rightarrow>
               if chTxBuf c' = [] then (r, c'\<lparr>chTxBuf := [txBuf']\<rparr>)
               else (Inl Blocks, c')))"

text \<open>
  \<open>req := T(txBuf[:n])\<close>, the setters, then \<open>sendReq(req)\<close>. The slice shares its
  bytes with \<open>txBuf\<close>, so what the setters write stays in the buffer. Slicing beyond the
  capacity panics, and so does a setter out of range. \<open>parse\<close> stands for the code after
  the error check of \<open>sendReq\<close>.
\<close>

definition request ::
  "nat \<Rightarrow> (slice \<Rightarrow> slice) \<Rightarrow> (byte list \<Rightarrow> 'a res) \<Rightarrow> byte list \<Rightarrow> client
     \<Rightarrow> 'a res \<times> byte list \<times> client" where
  "request n build parse txBuf c =
     (if length txBuf < n then (Inl Panic, txBuf, c)
      else (case build (True, take n txBuf) of
              (False, req) \<Rightarrow> (Inl Panic, req @ drop n txBuf, c)
            | (True, req) \<Rightarrow>
                (case sendReq req c of
                   (Inl e, c') \<Rightarrow> (Inl e, req @ drop n txBuf, c')
                 | (Inr rsp, c') \<Rightarrow> (parse rsp, req @ drop n txBuf, c'))))"

subsection \<open>The request operations\<close>

text \<open>
  Each operation checks its arguments, takes the buffer, builds the request in it, calls
  \<open>sendReq\<close> and runs the \<open>switch\<close> that validates the response, in the order of
  its cases. \<open>rsp[0]\<close> is read first, so an empty response panics.
\<close>

definition ExchangeMTU_rsp :: "getter \<Rightarrow> byte list \<Rightarrow> int res" where
  "ExchangeMTU_rsp g rsp =
     (case rsp of
        [] \<Rightarrow> Inl Panic
      | r0 # _ \<Rightarrow>
          if r0 = ErrorResponseCode \<and> length rsp = 5 then Inl (ATTError (rsp ! 4))
          else if (r0 = ErrorResponseCode \<and> length rsp \<noteq> 5)
               \<or> r0 \<noteq> AttributeOpcode g ExchangeMTUResponseCode rsp
               \<or> length rsp \<noteq> 3
          then Inl ErrInvalidResponse
          else Inr (uint (le16 (rsp ! 1) (rsp ! 2))))"

text \<open>
  After the \<open>switch\<close>, \<open>txMTU\<close> is the \<open>ServerRxMTU\<close> of the response. When the
  buffer has another length, \<open>SetTxMTU\<close> is called and the variable \<open>txBuf\<close> gets a
  new buffer of that length, which the deferred function puts into the channel.
\<close>

definition ExchangeMTU :: "getter \<Rightarrow> int \<Rightarrow> client \<Rightarrow> int res \<times> client" where
  "ExchangeMTU g clientRxMTU c =
     (if clientRxMTU < DefaultMTU \<or> clientRxMTU > MaxMTU then (Inl ErrInvalidArgument, c)
      else with_txBuf (\<lambda>txBuf c1.
        (case request 3
                (\<lambda>r. put16 1 (word_of_int clientRxMTU) (set8 0 ExchangeMTURequestCode r))
                (ExchangeMTU_rsp g) txBuf (c1\<lparr>l2c := SetRxMTU clientRxMTU (l2c c1)\<rparr>) of
           (Inl e, buf, c2) \<Rightarrow> (Inl e, buf, c2)
         | (Inr txMTU', buf, c2) \<Rightarrow>
             if int (length buf) \<noteq> txMTU'
             then (Inr txMTU', replicate (nat txMTU') 0,
                   c2\<lparr>l2c := SetTxMTU txMTU' (l2c c2)\<rparr>)
             else (Inr txMTU', buf, c2))) c)"

definition FindInformation_rsp :: "getter \<Rightarrow> byte list \<Rightarrow> (int \<times> byte list) res" where
  "FindInformation_rsp g rsp =
     (case rsp of
        [] \<Rightarrow> Inl Panic
      | r0 # _ \<Rightarrow>
          if r0 = ErrorResponseCode \<and> length rsp = 5 then Inl (ATTError (rsp ! 4))
          else if (r0 = ErrorResponseCode \<and> length rsp \<noteq> 5)
               \<or> r0 \<noteq> AttributeOpcode g FindInformationResponseCode rsp
               \<or> length rsp < 6
               \<or> (rsp ! 1 = 0x01 \<and> (length rsp - 2) mod 4 \<noteq> 0)
               \<or> (rsp ! 1 = 0x02 \<and> (length rsp - 2) mod 18 \<noteq> 0)
          then Inl ErrInvalidResponse
          else Inr (uint (rsp ! 1), drop 2 rsp))"

definition FindInformation ::
  "getter \<Rightarrow> u16 \<Rightarrow> u16 \<Rightarrow> client \<Rightarrow> (int \<times> byte list) res \<times> client" where
  "FindInformation g starth endh c =
     (if starth = 0 \<or> starth > endh then (Inl ErrInvalidArgument, c)
      else with_txBuf
             (request 5
                (\<lambda>r. put16 3 endh (put16 1 starth (set8 0 FindInformationRequestCode r)))
                (FindInformation_rsp g)) c)"

text \<open>
  \<open>len(rsp) < 4 || len(rsp.AttributeDataList())%int(rsp.Length()) != 0\<close>: the
  remainder is taken whenever the length is at least 4, and Go panics on a zero divisor.
\<close>

definition ReadByType_rsp :: "getter \<Rightarrow> byte list \<Rightarrow> (int \<times> byte list) res" where
  "ReadByType_rsp g rsp =
     (case rsp of
        [] \<Rightarrow> Inl Panic
      | r0 # _ \<Rightarrow>
          if r0 = ErrorResponseCode \<and> length rsp = 5 then Inl (ATTError (rsp ! 4))
          else if (r0 = ErrorResponseCode \<and> length rsp \<noteq> 5)
               \<or> r0 \<noteq> AttributeOpcode g ReadByTypeResponseCode rsp
               \<or> length rsp < 4
          then Inl ErrInvalidResponse
          else if rsp ! 1 = 0 then Inl Panic
          else if length (drop 2 rsp) mod unat (rsp ! 1) \<noteq> 0 then Inl ErrInvalidResponse
          else Inr (uint (rsp ! 1), drop 2 rsp))"

definition ReadByType ::
  "getter \<Rightarrow> u16 \<Rightarrow> u16 \<Rightarrow> byte list \<Rightarrow> client \<Rightarrow> (int \<times> byte list) res \<times> client" where
  "ReadByType g starth endh uuid c =
     (if starth > endh \<or> (length uuid \<noteq> 2 \<and> length uuid \<noteq> 16)
      then (Inl ErrInvalidArgument, c)
      else with_txBuf
             (request (5 + length uuid)
                (\<lambda>r. copy_at 5 uuid
                        (put16 3 endh (put16 1 starth (set8 0 ReadByTypeRequestCode r))))
                (ReadByType_rsp g)) c)"

definition Read_rsp :: "getter \<Rightarrow> byte list \<Rightarrow> byte list res" where
  "Read_rsp g rsp =
     (case rsp of
        [] \<Rightarrow> Inl Panic
      | r0 # _ \<Rightarrow>
          if r0 = ErrorResponseCode \<and> length rsp = 5 then Inl (ATTError (rsp ! 4))
          else if (r0 = ErrorResponseCode \<and> length rsp \<noteq> 5)
               \<or> r0 \<noteq> AttributeOpcode g ReadResponseCode rsp
               \<or> length rsp < 1
          then Inl ErrInvalidResponse
          else Inr (drop 1 rsp))"

definition Read :: "getter \<Rightarrow> u16 \<Rightarrow> client \<Rightarrow> byte list res \<times> client" where
  "Read g handle c =
     with_txBuf
       (request 3 (\<lambda>r. put16 1 handle (set8 0 ReadRequestCode r)) (Read_rsp g)) c"

definition ReadBlob_rsp :: "getter \<Rightarrow> byte list \<Rightarrow> byte list res" where
  "ReadBlob_rsp g rsp =
     (case rsp of
        [] \<Rightarrow> Inl Panic
      | r0 # _ \<Rightarrow>
          if r0 = ErrorResponseCode \<and> length rsp = 5 then Inl (ATTError (rsp ! 4))
          else if (r0 = ErrorResponseCode \<and> length rsp \<noteq> 5)
               \<or> r0 \<noteq> AttributeOpcode g ReadBlobResponseCode rsp
               \<or> length rsp < 1
          then Inl ErrInvalidResponse
          else Inr (drop 1 rsp))"

definition ReadBlob :: "getter \<Rightarrow> u16 \<Rightarrow> u16 \<Rightarrow> client \<Rightarrow> byte list res \<times> client" where
  "ReadBlob g handle offset c =
     with_txBuf
       (request 5
          (\<lambda>r. put16 3 offset (put16 1 handle (set8 0 ReadBlobRequestCode r)))
          (ReadBlob_rsp g)) c"

definition ReadMultiple_rsp :: "getter \<Rightarrow> byte list \<Rightarrow> byte list res" where
  "ReadMultiple_rsp g rsp =
     (case rsp of
        [] \<Rightarrow> Inl Panic
      | r0 # _ \<Rightarrow>
          if r0 = ErrorResponseCode \<and> length rsp = 5 then Inl (ATTError (rsp ! 4))
          else if (r0 = ErrorResponseCode \<and> length rsp \<noteq> 5)
               \<or> r0 \<noteq> AttributeOpcode g ReadMultipleResponseCode rsp
               \<or> length rsp < 1
          then Inl ErrInvalidResponse
          else Inr (drop 1 rsp))"

text \<open>The loop over \<open>handles\<close>: the i-th handle goes to offset \<open>1 + 2 * i\<close>.\<close>

fun put_handles :: "nat \<Rightarrow> u16 list \<Rightarrow> slice \<Rightarrow> slice" where
  "put_handles i [] r = r"
| "put_handles i (h # hs) r = put_handles (i + 2) hs (put16 i h r)"

definition ReadMultiple :: "getter \<Rightarrow> u16 list \<Rightarrow> client \<Rightarrow> byte list res \<times> client" where
  "ReadMultiple g handles c =
     (if length handles < 2 \<or> int (length handles) * 2 > txMTU (l2c c) - 1
      then (Inl ErrInvalidArgument, c)
      else with_txBuf
             (request (1 + length handles * 2)
                (\<lambda>r. put_handles 1 handles (set8 0 ReadMultipleRequestCode r))
                (ReadMultiple_rsp g)) c)"

definition ReadByGroupType_rsp :: "getter \<Rightarrow> byte list \<Rightarrow> (int \<times> byte list) res" where
  "ReadByGroupType_rsp g rsp =
     (case rsp of
        [] \<Rightarrow> Inl Panic
      | r0 # _ \<Rightarrow>
          if r0 = ErrorResponseCode \<and> length rsp = 5 then Inl (ATTError (rsp ! 4))
          else if (r0 = ErrorResponseCode \<and> length rsp \<noteq> 5)
               \<or> r0 \<noteq> AttributeOpcode g ReadByGroupTypeResponseCode rsp
               \<or> length rsp < 4
          then Inl ErrInvalidResponse
          else if rsp ! 1 = 0 then Inl Panic
          else if length (drop 2 rsp) mod unat (rsp ! 1) \<noteq> 0 then Inl ErrInvalidResponse
          else Inr (uint (rsp ! 1), drop 2 rsp))"

definition ReadByGroupType ::
  "getter \<Rightarrow> u16 \<Rightarrow> u16 \<Rightarrow> byte list \<Rightarrow> client \<Rightarrow> (int \<times> byte list) res \<times> client" where
  "ReadByGroupType g starth endh uuid c =
     (if starth > endh \<or> (length uuid \<noteq> 2 \<and> length uuid \<noteq> 16)
      then (Inl ErrInvalidArgument, c)
      else with_txBuf
             (request (5 + length uuid)
                (\<lambda>r. copy_at 5 uuid
                        (put16 3 endh (put16 1 starth (set8 0 ReadByGroupTypeRequestCode r))))
                (ReadByGroupType_rsp g)) c)"

definition Write_rsp :: "getter \<Rightarrow> byte list \<Rightarrow> unit res" where
  "Write_rsp g rsp =
     (case rsp of
        [] \<Rightarrow> Inl Panic
      | r0 # _ \<Rightarrow>
          if r0 = ErrorResponseCode \<and> length rsp = 5 then Inl (ATTError (rsp ! 4))
          else if (r0 = ErrorResponseCode \<and> length rsp \<noteq> 5)
               \<or> r0 \<noteq> AttributeOpcode g WriteResponseCode rsp
          then Inl ErrInvalidResponse
          else Inr ())"

definition Write :: "getter \<Rightarrow> u16 \<Rightarrow> byte list \<Rightarrow> client \<Rightarrow> unit res \<times> client" where
  "Write g handle val c =
     (if int (length val) > txMTU (l2c c) - 3 then (Inl ErrInvalidArgument, c)
      else with_txBuf
             (request (3 + length val)
                (\<lambda>r. copy_at 3 val (put16 1 handle (set8 0 WriteRequestCode r)))
                (Write_rsp g)) c)"

definition PrepareWrite_rsp :: "getter \<Rightarrow> byte list \<Rightarrow> (u16 \<times> u16 \<times> byte list) res" where
  "PrepareWrite_rsp g rsp =
     (case rsp of
        [] \<Rightarrow> Inl Panic
      | r0 # _ \<Rightarrow>
          if r0 = ErrorResponseCode \<and> length rsp = 5 then Inl (ATTError (rsp ! 4))
          else if (r0 = ErrorResponseCode \<and> length rsp \<noteq> 5)
               \<or> r0 \<noteq> AttributeOpcode g PrepareWriteResponseCode rsp
               \<or> length rsp < 5
          then Inl ErrInvalidResponse
          else Inr (le16 (rsp ! 1) (rsp ! 2), le16 (rsp ! 3) (rsp ! 4), drop 5 rsp))"

text \<open>The request is cut to \<open>5 + len(value)\<close> bytes, but no setter copies \<open>value\<close>.\<close>

definition PrepareWrite ::
  "getter \<Rightarrow> u16 \<Rightarrow> u16 \<Rightarrow> byte list \<Rightarrow> client \<Rightarrow> (u16 \<times> u16 \<times> byte list) res \<times> client" where
  "PrepareWrite g handle offset val c =
     (if int (length val) > txMTU (l2c c) - 5 then (Inl ErrInvalidArgument, c)
      else with_txBuf
             (request (5 + length val)
                (\<lambda>r. put16 3 offset (put16 1 handle (set8 0 PrepareWriteRequestCode r)))
                (PrepareWrite_rsp g)) c)"

text \<open>
  The second case of the \<open>switch\<close> of \<open>ExecuteWrite\<close> repeats the condition of the
  first (\<open>len(rsp) == 5\<close>), so it never applies.
\<close>

definition ExecuteWrite_rsp :: "getter \<Rightarrow> byte list \<Rightarrow> unit res" where
  "ExecuteWrite_rsp g rsp =
     (case rsp of
        [] \<Rightarrow> Inl Panic
      | r0 # _ \<Rightarrow>
          if r0 = ErrorResponseCode \<and> length rsp = 5 then Inl (ATTError (rsp ! 4))
          else if (r0 = ErrorResponseCode \<and> length rsp = 5)
               \<or> r0 \<noteq> AttributeOpcode g ExecuteWriteResponseCode rsp
          then Inl ErrInvalidResponse
          else Inr ())"

text \<open>The request is \<open>txBuf[:1]\<close>, one byte; \<open>SetFlags\<close> writes the byte at index 1.\<close>

definition ExecuteWrite :: "getter \<Rightarrow> byte \<Rightarrow> client \<Rightarrow> unit res \<times> client" where
  "ExecuteWrite g flags c =
     with_txBuf
       (request 1 (\<lambda>r. set8 1 flags (set8 0 ExecuteWriteRequestCode r))
          (ExecuteWrite_rsp g)) c"

subsection \<open>The ten request operations as one\<close>

text \<open>
  To state a property of every request operation: a request with its arguments, and
  \<open>perform\<close>, which runs the operation and keeps the error it returns (\<open>None\<close> for
  nil) and the client.
\<close>

datatype att_request =
    ReqExchangeMTU int
  | ReqFindInformation u16 u16
  | ReqReadByType u16 u16 "byte list"
  | ReqRead u16
  | ReqReadBlob u16 u16
  | ReqReadMultiple "u16 list"
  | ReqReadByGroupType u16 u16 "byte list"
  | ReqWrite u16 "byte list"
  | ReqPrepareWrite u16 u16 "byte list"
  | ReqExecuteWrite byte

definition err_of :: "'a res \<Rightarrow> error option" where
  "err_of r = (case r of Inl e \<Rightarrow> Some e | Inr _ \<Rightarrow> None)"

fun perform :: "getter \<Rightarrow> att_request \<Rightarrow> client \<Rightarrow> error option \<times> client" where
  "perform g (ReqExchangeMTU m) c = apfst err_of (ExchangeMTU g m c)"
| "perform g (ReqFindInformation s e) c = apfst err_of (FindInformation g s e c)"
| "perform g (ReqReadByType s e u) c = apfst err_of (ReadByType g s e u c)"
| "perform g (ReqRead h) c = apfst err_of (Read g h c)"
| "perform g (ReqReadBlob h off) c = apfst err_of (ReadBlob g h off c)"
| "perform g (ReqReadMultiple hs) c = apfst err_of (ReadMultiple g hs c)"
| "perform g (ReqReadByGroupType s e u) c = apfst err_of (ReadByGroupType g s e u c)"
| "perform g (ReqWrite h v) c = apfst err_of (Write g h v c)"
| "perform g (ReqPrepareWrite h off v) c = apfst err_of (PrepareWrite g h off v c)"
| "perform g (ReqExecuteWrite f) c = apfst err_of (ExecuteWrite g f c)"

text \<open>
  The response opcode \<open>rspOfReq\<close> gives for the request of each operation, and the
  conditions on the length of the response under which the \<open>switch\<close> of each
  operation returns \<open>ErrInvalidResponse\<close>. The test \<open>len(rsp) < 1\<close> of \<open>Read\<close>,
  \<open>ReadBlob\<close> and \<open>ReadMultiple\<close> is never true of a response, which has an
  opcode; \<open>Write\<close> and \<open>ExecuteWrite\<close> have no test of the length.
\<close>

fun rsp_code :: "att_request \<Rightarrow> byte" where
  "rsp_code (ReqExchangeMTU m) = ExchangeMTUResponseCode"
| "rsp_code (ReqFindInformation s e) = FindInformationResponseCode"
| "rsp_code (ReqReadByType s e u) = ReadByTypeResponseCode"
| "rsp_code (ReqRead h) = ReadResponseCode"
| "rsp_code (ReqReadBlob h off) = ReadBlobResponseCode"
| "rsp_code (ReqReadMultiple hs) = ReadMultipleResponseCode"
| "rsp_code (ReqReadByGroupType s e u) = ReadByGroupTypeResponseCode"
| "rsp_code (ReqWrite h v) = WriteResponseCode"
| "rsp_code (ReqPrepareWrite h off v) = PrepareWriteResponseCode"
| "rsp_code (ReqExecuteWrite f) = ExecuteWriteResponseCode"

fun fails_length_check :: "att_request \<Rightarrow> byte list \<Rightarrow> bool" where
  "fails_length_check (ReqExchangeMTU m) rsp = (length rsp \<noteq> 3)"
| "fails_length_check (ReqFindInformation s e) rsp =
     (length rsp < 6
      \<or> (rsp ! 1 = 0x01 \<and> (length rsp - 2) mod 4 \<noteq> 0)
      \<or> (rsp ! 1 = 0x02 \<and> (length rsp - 2) mod 18 \<noteq> 0))"
| "fails_length_check (ReqReadByType s e u) rsp =
     (length rsp < 4 \<or> (rsp ! 1 \<noteq> 0 \<and> (length rsp - 2) mod unat (rsp ! 1) \<noteq> 0))"
| "fails_length_check (ReqReadByGroupType s e u) rsp =
     (length rsp < 4 \<or> (rsp ! 1 \<noteq> 0 \<and> (length rsp - 2) mod unat (rsp ! 1) \<noteq> 0))"
| "fails_length_check (ReqPrepareWrite h off v) rsp = (length rsp < 5)"
| "fails_length_check (ReqRead h) rsp = False"
| "fails_length_check (ReqReadBlob h off) rsp = False"
| "fails_length_check (ReqReadMultiple hs) rsp = False"
| "fails_length_check (ReqWrite h v) rsp = False"
| "fails_length_check (ReqExecuteWrite f) rsp = False"

subsection \<open>The receive loop\<close>

text \<open>
  \<open>Loop\<close> reads frames and hands each on. Its environment, one record per turn of the
  loop: which of \<open>done\<close> and \<open>connClosed\<close> the first \<open>select\<close> and the one after
  the read find ready, what \<open>c.l2c.Read\<close> returns, and the case the \<open>select\<close> that
  hands the frame on takes. \<open>NotSent\<close> is its \<open>default\<close> case; the \<open>select\<close> on
  \<open>rspc\<close> has none and waits.
\<close>

datatype signal = NoSig | SigDone | SigClosed

datatype read_result = RdFrame "byte list" | RdFail io_error

datatype choice = Done | Closed | Sent | NotSent

record turn =
  sel1 :: signal
  rd :: read_result
  sel2 :: signal
  sel3 :: choice






section \<open>The GATT client (src/unnamed/part_001, package gatt)\<close>

definition cccNotify :: u16 where
  "cccNotify = 0x0001"

definition cccIndicate :: u16 where
  "cccIndicate = 0x0002"

text \<open>
  A \<open>ble.NotificationHandler\<close> is a Go function value; the code only stores it and
  compares it with nil. Handlers are told apart by a number, and \<open>None\<close> is nil.
\<close>

type_synonym NotificationHandler = "nat option"

record sub =
  cccdh :: u16
  ccc :: u16
  nHandler :: NotificationHandler
  iHandler :: NotificationHandler
  sub_id :: nat

text \<open>
  The fields of \<open>ble.Descriptor\<close> and \<open>ble.Characteristic\<close> the client reads or
  writes here; \<open>CCCD\<close> is a pointer, nil until discovery has found the descriptor.
\<close>

record descriptor =
  Handle :: u16

record characteristic =
  ValueHandle :: u16
  CCCD :: "descriptor option"
  Value :: "byte list"

text \<open>
  \<open>subs\<close> and the ATT client \<open>ac\<close>. The field \<open>conn\<close> is the connection
  \<open>NewClient\<close> also gave to \<open>ac\<close>, so \<open>p.conn.TxMTU()\<close> reads \<open>txMTU (l2c (ac p))\<close>.
\<close>

record gatt_client =
  subs :: "u16 \<rightharpoonup> sub"
  ac :: client

datatype gatt_error = CCCDNotFound | ATT error

text \<open>
  The loop of \<open>ReadLongCharacteristic\<close> goes on while the last chunk has at least
  \<open>TxMTU - 1\<close> bytes, so a peer that never sends a short chunk keeps it running. The
  first argument bounds the number of turns; \<open>None\<close> says the bound was reached.
\<close>

fun readBlobs ::
  "nat \<Rightarrow> getter \<Rightarrow> u16 \<Rightarrow> byte list \<Rightarrow> byte list \<Rightarrow> client
     \<Rightarrow> (byte list res \<times> client) option" where
  "readBlobs 0 g vh read buffer a =
     (if int (length read) \<ge> txMTU (l2c a) - 1 then None else Some (Inr buffer, a))"
| "readBlobs (Suc n) g vh read buffer a =
     (if int (length read) \<ge> txMTU (l2c a) - 1
      then (case ReadBlob g vh (of_nat (length buffer)) a of
              (Inl e, a') \<Rightarrow> Some (Inl e, a')
            | (Inr read', a') \<Rightarrow> readBlobs n g vh read' (buffer @ read') a')
      else Some (Inr buffer, a))"

definition ReadLongCharacteristic ::
  "nat \<Rightarrow> getter \<Rightarrow> characteristic \<Rightarrow> gatt_client
     \<Rightarrow> (byte list res \<times> characteristic \<times> gatt_client) option" where
  "ReadLongCharacteristic fuel g c p =
     (case Read g (ValueHandle c) (ac p) of
        (Inl e, a) \<Rightarrow> Some (Inl e, c, p\<lparr>ac := a\<rparr>)
      | (Inr read, a) \<Rightarrow>
          (case readBlobs fuel g (ValueHandle c) read ([] @ read) a of
             None \<Rightarrow> None
           | Some (Inl e, a') \<Rightarrow> Some (Inl e, c, p\<lparr>ac := a'\<rparr>)
           | Some (Inr buffer, a') \<Rightarrow>
               Some (Inr buffer, c\<lparr>Value := buffer\<rparr>, p\<lparr>ac := a'\<rparr>)))"

text \<open>
  \<open>setHandlers\<close>. \<open>s\<close> points into the map, so what the code writes to \<open>s\<close> is
  written to the entry of \<open>vh\<close>; a failed write deletes the entry.
\<close>

definition setHandlers ::
  "getter \<Rightarrow> u16 \<Rightarrow> u16 \<Rightarrow> u16 \<Rightarrow> NotificationHandler \<Rightarrow> gatt_client
     \<Rightarrow> gatt_error option \<times> gatt_client" where
  "setHandlers g cccdh0 vh flag h p =
     (let s = (case subs p vh of
                 Some s' \<Rightarrow> s'
               | None \<Rightarrow> \<lparr>cccdh = cccdh0, ccc = 0, nHandler = None, iHandler = None,
                           sub_id = 0\<rparr>);
          p1 = p\<lparr>subs := (subs p)(vh \<mapsto> s)\<rparr>
      in if h = None \<and> (ccc s AND flag) = 0 then (None, p1)
         else if h \<noteq> None \<and> (ccc s AND flag) \<noteq> 0 then (None, p1)
         else (let s1 = (if h = None then s\<lparr>ccc := ccc s AND NOT flag\<rparr>
                         else s\<lparr>ccc := ccc s OR flag\<rparr>);
                   v = [lo8 (ccc s1), hi8 (ccc s1)];
                   s2 = (if flag = cccNotify then s1\<lparr>nHandler := h\<rparr>
                         else s1\<lparr>iHandler := h\<rparr>)
               in (case Write g (cccdh s2) v (ac p1) of
                     (Inl e, a) \<Rightarrow> (Some (ATT e), p1\<lparr>subs := (subs p1)(vh := None), ac := a\<rparr>)
                   | (Inr _, a) \<Rightarrow> (None, p1\<lparr>subs := (subs p1)(vh \<mapsto> s2), ac := a\<rparr>))))"

definition Subscribe ::
  "getter \<Rightarrow> characteristic \<Rightarrow> bool \<Rightarrow> NotificationHandler \<Rightarrow> gatt_client
     \<Rightarrow> gatt_error option \<times> gatt_client" where
  "Subscribe g c ind h p =
     (case CCCD c of
        None \<Rightarrow> (Some CCCDNotFound, p)
      | Some d \<Rightarrow>
          setHandlers g (Handle d) (ValueHandle c) (if ind then cccIndicate else cccNotify) h p)"

definition Unsubscribe ::
  "getter \<Rightarrow> characteristic \<Rightarrow> bool \<Rightarrow> gatt_client \<Rightarrow> gatt_error option \<times> gatt_client" where
  "Unsubscribe g c ind p =
     (case CCCD c of
        None \<Rightarrow> (Some CCCDNotFound, p)
      | Some d \<Rightarrow>
          if ind then setHandlers g (Handle d) (ValueHandle c) cccIndicate None p
          else setHandlers g (Handle d) (ValueHandle c) cccNotify None p)"

text \<open>
  Modelled from the spec: the peer of the long read, a server that holds the value \<open>v\<close>
  at the handle \<open>vh\<close>. Its request handlers are in package att, not under src/. By the
  specification \<open>Read(handle)\<close> and \<open>ReadBlob(handle, offset)\<close> return the attribute
  value, from the offset on, in chunks of at most \<open>mtu - 1\<close> bytes. It does not react
  to anything else.
\<close>

definition value_server :: "u16 \<Rightarrow> byte list \<Rightarrow> nat \<Rightarrow> byte list \<Rightarrow> event list" where
  "value_server vh v mtu req =
     (if req = [ReadRequestCode, lo8 vh, hi8 vh]
      then [EvRsp (ReadResponseCode # take (mtu - 1) v)]
      else (case req of
              [op, h0, h1, o0, o1] \<Rightarrow>
                if op = ReadBlobRequestCode \<and> h0 = lo8 vh \<and> h1 = hi8 vh
                then [EvRsp (ReadBlobResponseCode
                               # take (mtu - 1) (drop (unat (le16 o0 o1)) v))]
                else []
            | _ \<Rightarrow> []))"

section \<open>The SMP manager (src/linux/hci/smp/manager.go)\<close>

datatype PairingState =
    Init
  | WaitPairingResponse
  | WaitPublicKey
  | WaitConfirm
  | WaitRandom
  | WaitDhKeyCheck
  | Finished
  | Error

datatype smp_error = SmpErr nat | SmpPanic | SmpBlocks

text \<open>
  Modelled from the spec: \<open>transport\<close>, \<open>transport.send\<close>, \<open>pdu.payload\<close>, the
  constant \<open>pairingFailed\<close> and the table \<open>dispatcher\<close> are in files of package smp
  that are not under src/. The transport keeps the pairing state (\<open>m.t.pairing.state\<close>)
  and the PDUs handed to \<open>send\<close>; \<open>sfail\<close> gives the outcome of the coming sends.
  \<open>payload\<close> is the frame behind the four bytes of L2CAP header (length and channel
  id, section 4.6 of the specification). Pairing Failed is SMP code 0x05. The
  dispatcher is a parameter of \<open>manager_Handle\<close>: an opcode has no entry, an entry with a nil
  handler, or a handler, which gets the transport and the data and returns its error
  and the transport.
\<close>

record transport =
  state :: PairingState
  sent :: "byte list list"
  sfail :: "smp_error option list"

definition send :: "byte list \<Rightarrow> transport \<Rightarrow> smp_error option \<times> transport" where
  "send pdu tr =
     (case sfail tr of
        [] \<Rightarrow> (None, tr\<lparr>sent := sent tr @ [pdu]\<rparr>)
      | None # w \<Rightarrow> (None, tr\<lparr>sent := sent tr @ [pdu], sfail := w\<rparr>)
      | Some e # w \<Rightarrow> (Some e, tr\<lparr>sfail := w\<rparr>))"

definition pairingFailed :: byte where
  "pairingFailed = 0x05"

type_synonym smp_handler = "transport \<Rightarrow> byte list \<Rightarrow> smp_error option \<times> transport"

text \<open>
  The manager: its transport and the channel \<open>result\<close>, unbuffered: \<open>waiting\<close> tells
  whether \<open>waitResult\<close> is receiving, \<open>results\<close> lists what it has received, and
  \<open>result_closed\<close> whether the channel is closed.
\<close>

record manager =
  t :: transport
  waiting :: bool
  results :: "smp_error list"
  result_closed :: bool

text \<open>
  \<open>manager.Handle\<close> (the name \<open>Handle\<close> is the field of the descriptor above).
  \<open>p.payload()\<close> and \<open>payload[0]\<close> panic on a frame of fewer than five
  bytes. \<open>m.result <- err\<close> panics when the channel is closed and otherwise waits
  for a receiver. The \<open>select\<close> at the end closes the channel unless a receive from
  it succeeds, which it does once the channel is closed.
\<close>

definition manager_Handle ::
  "(byte \<Rightarrow> smp_handler option option) \<Rightarrow> byte list \<Rightarrow> manager
     \<Rightarrow> smp_error option \<times> manager" where
  "manager_Handle dispatcher inp m =
     (if length inp < 5 then (Some SmpPanic, m)
      else (let payload = drop 4 inp; code = hd payload; data = tl payload
            in (case dispatcher code of
                  None \<Rightarrow>
                    (case send [pairingFailed, 0x05] (t m) of (e, tr) \<Rightarrow> (e, m\<lparr>t := tr\<rparr>))
                | Some None \<Rightarrow>
                    (case send [pairingFailed, 0x05] (t m) of (e, tr) \<Rightarrow> (e, m\<lparr>t := tr\<rparr>))
                | Some (Some handler) \<Rightarrow>
                    (case handler (t m) data of
                       (Some err, tr) \<Rightarrow>
                         if result_closed m
                         then (Some SmpPanic, m\<lparr>t := tr\<lparr>state := Error\<rparr>\<rparr>)
                         else if waiting m
                         then (Some err, m\<lparr>t := tr\<lparr>state := Error\<rparr>, waiting := False,
                                           results := results m @ [err]\<rparr>)
                         else (Some SmpBlocks, m\<lparr>t := tr\<lparr>state := Error\<rparr>\<rparr>)
                     | (None, tr) \<Rightarrow>
                         if state tr = Finished
                         then (None, m\<lparr>t := tr, result_closed := True\<rparr>)
                         else (None, m\<lparr>t := tr\<rparr>)))))"

section \<open>Sample states\<close>

text \<open>
  A connection with both MTUs at \<open>mtu\<close>, nothing written yet, every write
  succeeding and a silent peer; and a client on it whose channel holds its one buffer
  and whose coming events are \<open>evs\<close>.
\<close>

definition quiet_conn :: "int \<Rightarrow> conn" where
  "quiet_conn mtu = \<lparr>rxMTU = mtu, txMTU = mtu, written = [], wfail = [], peer = (\<lambda>_. [])\<rparr>"

definition idle_client :: "int \<Rightarrow> event list \<Rightarrow> client" where
  "idle_client mtu evs =
     \<lparr>l2c = quiet_conn mtu, chTxBuf = [replicate (nat mtu) 0], events = evs\<rparr>"


text \<open>
  The long read of the specification: a characteristic at handle 0x0012 whose value on
  the peer is the forty bytes 0 to 39, and a GATT client with MTU 23 facing that peer.
\<close>

definition forty_bytes :: "byte list" where
  "forty_bytes = map of_nat [0..<40]"

definition long_char :: characteristic where
  "long_char = \<lparr>ValueHandle = 0x0012, CCCD = None, Value = []\<rparr>"

definition long_read_client :: gatt_client where
  "long_read_client =
     \<lparr>subs = Map.empty,
      ac = \<lparr>l2c = \<lparr>rxMTU = 23, txMTU = 23, written = [], wfail = [],
                    peer = value_server 0x0012 forty_bytes 23\<rparr>,
            chTxBuf = [replicate 23 0], events = []\<rparr>\<rparr>"

text \<open>
  A characteristic whose CCCD has been discovered at handle 0x0013, and a GATT client
  without subscriptions whose peer will answer the next request with a Write Response.
\<close>

definition cccd_char :: characteristic where
  "cccd_char = \<lparr>ValueHandle = 0x0012, CCCD = Some \<lparr>Handle = 0x0013\<rparr>, Value = []\<rparr>"

definition sub_client :: gatt_client where
  "sub_client = \<lparr>subs = Map.empty, ac = idle_client 23 [EvRsp [0x13]]\<rparr>"

text \<open>A manager in the middle of pairing, with \<open>Pair\<close> waiting for the result.\<close>

definition fresh_manager :: manager where
  "fresh_manager =
     \<lparr>t = \<lparr>state = WaitPairingResponse, sent = [], sfail = []\<rparr>,
      waiting = True, results = [], result_closed = False\<rparr>"

text \<open>
  A dispatcher with a handler for Pairing Response (0x02), which moves the state on, and
  an entry without handler for Security Request (0x0B).
\<close>

definition sample_dispatcher :: "byte \<Rightarrow> smp_handler option option" where
  "sample_dispatcher code =
     (if code = 0x02 then Some (Some (\<lambda>tr data. (None, tr\<lparr>state := WaitPublicKey\<rparr>)))
      else if code = 0x0B then Some None
      else None)"


section \<open>Properties\<close>

lemmas opcode_defs =
  ErrorResponseCode_def ExchangeMTURequestCode_def ExchangeMTUResponseCode_def
  FindInformationRequestCode_def FindInformationResponseCode_def
  FindByTypeValueRequestCode_def FindByTypeValueResponseCode_def
  ReadByTypeRequestCode_def ReadByTypeResponseCode_def ReadRequestCode_def
  ReadResponseCode_def ReadBlobRequestCode_def ReadBlobResponseCode_def
  ReadMultipleRequestCode_def ReadMultipleResponseCode_def
  ReadByGroupTypeRequestCode_def ReadByGroupTypeResponseCode_def WriteRequestCode_def
  WriteResponseCode_def PrepareWriteRequestCode_def PrepareWriteResponseCode_def
  ExecuteWriteRequestCode_def ExecuteWriteResponseCode_def
  HandleValueNotificationCode_def HandleValueIndicationCode_def
  HandleValueConfirmationCode_def ErrReqNotSupp_def


subsection \<open>The setters on a slice of the right length\<close>

lemma le16_lo8_hi8: "le16 (lo8 v) (hi8 v) = v"
  unfolding le16_def lo8_def hi8_def
  by (rule bit_word_eqI) (auto simp: bit_simps)

lemma set8_ok: "set8 i v (ok, r) = (ok \<and> i < length r, if ok \<and> i < length r then r[i := v] else r)"
  by (simp add: set8_def)

lemma put16_ok:
  "put16 i v (ok, r) =
     (ok \<and> i + 2 \<le> length r, if ok \<and> i + 2 \<le> length r then r[i := lo8 v, i + 1 := hi8 v] else r)"
  by (simp add: put16_def)

lemma copy_at_ok:
  "copy_at i src (ok, r) =
     (ok \<and> i \<le> length r,
      if ok \<and> i \<le> length r
      then take i r @ take (min (length r - i) (length src)) src
             @ drop (i + min (length r - i) (length src)) r
      else r)"
  by (simp add: copy_at_def Let_def)

lemma frame3:
  assumes "length r = 3"
  shows "put16 1 h (set8 0 op (True, r)) = (True, [op, lo8 h, hi8 h])"
proof -
  obtain a b c where "r = [a, b, c]"
    using assms by (auto simp: length_Suc_conv eval_nat_numeral)
  then show ?thesis by (simp add: set8_ok put16_ok)
qed

lemma frame5:
  assumes "length r = 5"
  shows "put16 3 y (put16 1 x (set8 0 op (True, r))) = (True, [op, lo8 x, hi8 x, lo8 y, hi8 y])"
proof -
  obtain a b c d e where "r = [a, b, c, d, e]"
    using assms by (auto simp: length_Suc_conv eval_nat_numeral)
  then show ?thesis by (simp add: set8_ok put16_ok eval_nat_numeral)
qed

lemma frame5_tail:
  assumes "5 \<le> length r"
  shows "put16 3 y (put16 1 x (set8 0 op (True, r)))
           = (True, [op, lo8 x, hi8 x, lo8 y, hi8 y] @ drop 5 r)"
proof -
  obtain a b c d e rest where "r = a # b # c # d # e # rest"
    using assms by (auto simp: Suc_le_length_iff eval_nat_numeral)
  then show ?thesis by (simp add: set8_ok put16_ok eval_nat_numeral)
qed

lemma frame5_uuid:
  assumes "length r = 5 + length u"
  shows "copy_at 5 u (put16 3 y (put16 1 x (set8 0 op (True, r))))
           = (True, [op, lo8 x, hi8 x, lo8 y, hi8 y] @ u)"
  using assms frame5_tail[of r y x op] by (simp add: copy_at_ok)

lemma frame3_tail:
  assumes "3 \<le> length r"
  shows "put16 1 h (set8 0 op (True, r)) = (True, [op, lo8 h, hi8 h] @ drop 3 r)"
proof -
  obtain a b c rest where "r = a # b # c # rest"
    using assms by (auto simp: Suc_le_length_iff eval_nat_numeral)
  then show ?thesis by (simp add: set8_ok put16_ok eval_nat_numeral)
qed

lemma frame3_value:
  assumes "length r = 3 + length v"
  shows "copy_at 3 v (put16 1 h (set8 0 op (True, r))) = (True, [op, lo8 h, hi8 h] @ v)"
  using assms frame3_tail[of r h op] by (simp add: copy_at_ok)

lemma put_handles_ok:
  "i + 2 * length hs \<le> length r \<Longrightarrow>
     \<exists>r'. put_handles i hs (True, r) = (True, r') \<and> length r' = length r \<and> take i r' = take i r"
proof (induction hs arbitrary: i r)
  case Nil
  then show ?case by simp
next
  case (Cons h hs)
  have "i + 2 + 2 * length hs \<le> length (r[i := lo8 h, i + 1 := hi8 h])"
    using Cons.prems by simp
  from Cons.IH[OF this] obtain r' where
    "put_handles (i + 2) hs (True, r[i := lo8 h, i + 1 := hi8 h]) = (True, r')"
    "length r' = length r" "take (i + 2) r' = take (i + 2) (r[i := lo8 h, i + 1 := hi8 h])"
    by auto
  moreover have "take i r' = take i r"
  proof -
    have "take i (take (i + 2) r') = take i (take (i + 2) (r[i := lo8 h, i + 1 := hi8 h]))"
      using calculation(3) by simp
    then show ?thesis by (simp add: min_def)
  qed
  ultimately show ?case using Cons.prems by (simp add: put16_ok)
qed

subsection \<open>What writing and waiting leave unchanged\<close>

lemma l2c_Write_ok:
  "wfail l = [] \<Longrightarrow> l2c_Write b l = (None, l\<lparr>written := written l @ [b]\<rparr>)"
  by (simp add: l2c_Write_def)

lemma l2c_Write_keeps:
  "txMTU (snd (l2c_Write b l)) = txMTU l"
  "rxMTU (snd (l2c_Write b l)) = rxMTU l"
  "peer (snd (l2c_Write b l)) = peer l"
  by (auto simp: l2c_Write_def split: list.splits option.splits)

lemma l2c_Write_written:
  "written (snd (l2c_Write b l)) = written l \<or> written (snd (l2c_Write b l)) = written l @ [b]"
  by (auto simp: l2c_Write_def split: list.splits option.splits)

lemma await_keeps:
  "txMTU (snd (snd (await b evs l))) = txMTU l
   \<and> rxMTU (snd (snd (await b evs l))) = rxMTU l
   \<and> peer (snd (snd (await b evs l))) = peer l"
proof (induction b evs l rule: await.induct)
  case (4 b rsp evs l)
  show ?case
  proof (cases rsp)
    case Nil
    then show ?thesis by simp
  next
    case rsp: (Cons r0 rs)
    show ?thesis
    proof (cases b)
      case Nil
      with rsp show ?thesis by simp
    next
      case b: (Cons b0 bs)
      show ?thesis
      proof (cases "l2c_Write (newErrorResponse r0 0 ErrReqNotSupp) l")
        case (Pair e l')
        have k: "txMTU l' = txMTU l" "rxMTU l' = rxMTU l" "peer l' = peer l"
          using l2c_Write_keeps[of "newErrorResponse r0 0 ErrReqNotSupp" l] Pair by simp_all
        show ?thesis
        proof (cases e)
          case None
          with 4[OF rsp _ b _ Pair[symmetric, unfolded None]] rsp b Pair k show ?thesis
            by simp
        next
          case (Some a)
          with rsp b Pair k show ?thesis by simp
        qed
      qed
    qed
  qed
qed simp_all

lemma await_prefix: "prefix (written l) (written (snd (snd (await b evs l))))"
proof (induction b evs l rule: await.induct)
  case (4 b rsp evs l)
  show ?case
  proof (cases rsp)
    case Nil
    then show ?thesis by simp
  next
    case rsp: (Cons r0 rs)
    show ?thesis
    proof (cases b)
      case Nil
      with rsp show ?thesis by simp
    next
      case b: (Cons b0 bs)
      show ?thesis
      proof (cases "l2c_Write (newErrorResponse r0 0 ErrReqNotSupp) l")
        case (Pair e l')
        have k: "prefix (written l) (written l')"
          using l2c_Write_written[of "newErrorResponse r0 0 ErrReqNotSupp" l] Pair by auto
        show ?thesis
        proof (cases e)
          case None
          with 4[OF rsp _ b _ Pair[symmetric, unfolded None]] rsp b Pair k show ?thesis
            by (auto intro: prefix_order.trans)
        next
          case (Some a)
          with rsp b Pair k show ?thesis by simp
        qed
      qed
    qed
  qed
qed simp_all

lemma sendReq_keeps:
  "chTxBuf (snd (sendReq b c)) = chTxBuf c"
  "txMTU (l2c (snd (sendReq b c))) = txMTU (l2c c)"
  "rxMTU (l2c (snd (sendReq b c))) = rxMTU (l2c c)"
  "peer (l2c (snd (sendReq b c))) = peer (l2c c)"
  using await_keeps[of b "events c @ peer (snd (l2c_Write b (l2c c))) b" "snd (l2c_Write b (l2c c))"]
    l2c_Write_keeps[of b "l2c c"]
  by (auto simp: sendReq_def split: prod.splits option.splits)

lemma sendReq_answered:
  assumes "wfail (l2c c) = []"
    and "events c @ peer (l2c c) (b0 # bs) = EvRsp (r0 # rs) # evs"
    and "r0 = ErrorResponseCode \<or> r0 = rspOfReq b0"
  shows "sendReq (b0 # bs) c
           = (Inr (r0 # rs),
              c\<lparr>l2c := (l2c c)\<lparr>written := written (l2c c) @ [b0 # bs]\<rparr>, events := evs\<rparr>)"
  using assms by (auto simp: sendReq_def l2c_Write_ok)

lemma sendReq_sent:
  assumes "wfail (l2c c) = []"
  shows "prefix (written (l2c c) @ [b]) (written (l2c (snd (sendReq b c))))"
  using assms
    await_prefix[of "(l2c c)\<lparr>written := written (l2c c) @ [b]\<rparr>" b
      "events c @ peer (l2c c) b"]
  by (auto simp: sendReq_def l2c_Write_ok split: prod.splits)

lemma request_run:
  assumes "chTxBuf c = [buf]" and "n \<le> length buf"
    and "build (True, take n buf) = (True, req)"
  shows "with_txBuf (request n build parse) c
           = (case sendReq req (c\<lparr>chTxBuf := []\<rparr>) of
                (Inl e, c') \<Rightarrow> (Inl e, c'\<lparr>chTxBuf := [req @ drop n buf]\<rparr>)
              | (Inr rsp, c') \<Rightarrow> (parse rsp, c'\<lparr>chTxBuf := [req @ drop n buf]\<rparr>))"
proof -
  have "chTxBuf (snd (sendReq req (c\<lparr>chTxBuf := []\<rparr>))) = []"
    by (simp add: sendReq_keeps)
  then show ?thesis
    using assms by (auto simp: with_txBuf_def request_def split: prod.splits sum.splits)
qed

subsection \<open>No operation of the request path invents \<open>ErrInvalidArgument\<close>\<close>

lemma await_not_InvalidArgument: "fst (await b evs l) \<noteq> Inl ErrInvalidArgument"
  by (induction b evs l rule: await.induct) (auto split: list.splits prod.splits option.splits)

lemma sendReq_not_InvalidArgument: "fst (sendReq b c) \<noteq> Inl ErrInvalidArgument"
  using await_not_InvalidArgument
    [of b "events c @ peer (snd (l2c_Write b (l2c c))) b" "snd (l2c_Write b (l2c c))"]
  by (auto simp: sendReq_def split: prod.splits option.splits)

lemma request_not_InvalidArgument:
  assumes "\<And>rsp. parse rsp \<noteq> Inl ErrInvalidArgument"
  shows "fst (request n build parse txBuf c) \<noteq> Inl ErrInvalidArgument"
proof -
  have "sendReq b c = (Inl e, c') \<Longrightarrow> e \<noteq> ErrInvalidArgument" for b e c'
    using sendReq_not_InvalidArgument[of b c] by auto
  then show ?thesis
    using assms by (auto simp: request_def split: prod.splits bool.splits sum.splits)
qed

lemma with_txBuf_not_InvalidArgument:
  assumes "\<And>txBuf c1. fst (body txBuf c1) \<noteq> Inl ErrInvalidArgument"
  shows "fst (with_txBuf body c) \<noteq> Inl ErrInvalidArgument"
proof (cases "chTxBuf c")
  case Nil
  then show ?thesis by (simp add: with_txBuf_def)
next
  case (Cons b q)
  with assms[of b "c\<lparr>chTxBuf := q\<rparr>"] show ?thesis
    by (auto simp: with_txBuf_def split: prod.splits)
qed

lemma ExchangeMTU_rsp_not_InvalidArgument: "ExchangeMTU_rsp g rsp \<noteq> Inl ErrInvalidArgument"
  by (auto simp: ExchangeMTU_rsp_def split: list.splits)

lemma request_sent:
  assumes "chTxBuf c = [buf]" and "n \<le> length buf"
    and "build (True, take n buf) = (True, req)" and "wfail (l2c c) = []"
  shows "prefix (written (l2c c) @ [req])
           (written (l2c (snd (with_txBuf (request n build parse) c))))"
  using sendReq_sent[of "c\<lparr>chTxBuf := []\<rparr>" req] assms(4)
  by (auto simp: request_run[of c buf n build req parse, OF assms(1-3)]
        split: prod.splits sum.splits)

lemma request_op_not_InvalidArgument:
  assumes "\<And>rsp. parse rsp \<noteq> Inl ErrInvalidArgument"
  shows "fst (with_txBuf (request n build parse) c) \<noteq> Inl ErrInvalidArgument"
  by (intro with_txBuf_not_InvalidArgument request_not_InvalidArgument assms)

lemma rsp_not_InvalidArgument:
  "FindInformation_rsp g rsp \<noteq> Inl ErrInvalidArgument"
  "ReadByType_rsp g rsp \<noteq> Inl ErrInvalidArgument"
  "Read_rsp g rsp \<noteq> Inl ErrInvalidArgument"
  "ReadBlob_rsp g rsp \<noteq> Inl ErrInvalidArgument"
  "ReadMultiple_rsp g rsp \<noteq> Inl ErrInvalidArgument"
  "ReadByGroupType_rsp g rsp \<noteq> Inl ErrInvalidArgument"
  "Write_rsp g rsp \<noteq> Inl ErrInvalidArgument"
  "PrepareWrite_rsp g rsp \<noteq> Inl ErrInvalidArgument"
  "ExecuteWrite_rsp g rsp \<noteq> Inl ErrInvalidArgument"
  by (auto simp: FindInformation_rsp_def ReadByType_rsp_def Read_rsp_def ReadBlob_rsp_def
        ReadMultiple_rsp_def ReadByGroupType_rsp_def Write_rsp_def PrepareWrite_rsp_def
        ExecuteWrite_rsp_def split: list.splits)

lemma lo8_hi8_0: "lo8 0 = 0" "hi8 0 = 0"
  by (simp_all add: lo8_def hi8_def)

lemma lo8_hi8_FFFF: "lo8 0xFFFF = 0xFF" "hi8 0xFFFF = 0xFF"
  by (simp_all add: lo8_def hi8_def)

subsection \<open>A read that the peer answers\<close>

lemma Read_answered:
  assumes "chTxBuf c = [buf]" and "3 \<le> length buf" and "wfail (l2c c) = []"
    and "events c @ peer (l2c c) [ReadRequestCode, lo8 h, hi8 h]
           = EvRsp (ReadResponseCode # val) # evs"
  shows "Read g h c
           = (Inr val,
              c\<lparr>l2c := (l2c c)\<lparr>written := written (l2c c) @ [[ReadRequestCode, lo8 h, hi8 h]]\<rparr>,
                events := evs,
                chTxBuf := [[ReadRequestCode, lo8 h, hi8 h] @ drop 3 buf]\<rparr>)"
proof -
  let ?req = "[ReadRequestCode, lo8 h, hi8 h]"
  have build: "(\<lambda>r. put16 1 h (set8 0 ReadRequestCode r)) (True, take 3 buf) = (True, ?req)"
    using assms(2) by (simp add: frame3 del: One_nat_def)
  have s: "sendReq ?req (c\<lparr>chTxBuf := []\<rparr>)
             = (Inr (ReadResponseCode # val),
                c\<lparr>chTxBuf := [],
                  l2c := (l2c c)\<lparr>written := written (l2c c) @ [?req]\<rparr>, events := evs\<rparr>)"
    using sendReq_answered[of "c\<lparr>chTxBuf := []\<rparr>" ReadRequestCode "[lo8 h, hi8 h]"
        ReadResponseCode val evs] assms(3,4)
    by (simp add: rspOfReq_def opcode_defs)
  have p: "Read_rsp g (ReadResponseCode # val) = Inr val"
    by (cases g) (simp_all add: Read_rsp_def opcode_defs)
  show ?thesis
    unfolding Read_def
      request_run[of c buf 3 "\<lambda>r. put16 1 h (set8 0 ReadRequestCode r)" ?req "Read_rsp g",
        OF assms(1,2) build]
    by (simp add: s p)
qed

lemma ReadBlob_answered:
  assumes "chTxBuf c = [buf]" and "5 \<le> length buf" and "wfail (l2c c) = []"
    and "events c @ peer (l2c c) [ReadBlobRequestCode, lo8 h, hi8 h, lo8 off, hi8 off]
           = EvRsp (ReadBlobResponseCode # val) # evs"
  shows "ReadBlob g h off c
           = (Inr val,
              c\<lparr>l2c := (l2c c)\<lparr>written := written (l2c c)
                          @ [[ReadBlobRequestCode, lo8 h, hi8 h, lo8 off, hi8 off]]\<rparr>,
                events := evs,
                chTxBuf := [[ReadBlobRequestCode, lo8 h, hi8 h, lo8 off, hi8 off] @ drop 5 buf]\<rparr>)"
proof -
  let ?req = "[ReadBlobRequestCode, lo8 h, hi8 h, lo8 off, hi8 off]"
  have build: "(\<lambda>r. put16 3 off (put16 1 h (set8 0 ReadBlobRequestCode r))) (True, take 5 buf)
                 = (True, ?req)"
    using assms(2) by (simp add: frame5 del: One_nat_def)
  have s: "sendReq ?req (c\<lparr>chTxBuf := []\<rparr>)
             = (Inr (ReadBlobResponseCode # val),
                c\<lparr>chTxBuf := [],
                  l2c := (l2c c)\<lparr>written := written (l2c c) @ [?req]\<rparr>, events := evs\<rparr>)"
    using sendReq_answered[of "c\<lparr>chTxBuf := []\<rparr>" ReadBlobRequestCode
        "[lo8 h, hi8 h, lo8 off, hi8 off]" ReadBlobResponseCode val evs] assms(3,4)
    by (simp add: rspOfReq_def opcode_defs)
  have p: "ReadBlob_rsp g (ReadBlobResponseCode # val) = Inr val"
    by (cases g) (simp_all add: ReadBlob_rsp_def opcode_defs)
  show ?thesis
    unfolding ReadBlob_def
      request_run[of c buf 5 "\<lambda>r. put16 3 off (put16 1 h (set8 0 ReadBlobRequestCode r))"
        ?req "ReadBlob_rsp g", OF assms(1,2) build]
    by (simp add: s p)
qed

lemma readBlobs_short:
  "int (length read) < txMTU (l2c a) - 1 \<Longrightarrow> readBlobs n g vh read buffer a = Some (Inr buffer, a)"
  by (cases n) simp_all

lemma value_server_Read:
  "value_server vh v mtu [ReadRequestCode, lo8 vh, hi8 vh]
     = [EvRsp (ReadResponseCode # take (mtu - 1) v)]"
  by (simp add: value_server_def)

lemma value_server_ReadBlob:
  "value_server vh v mtu [ReadBlobRequestCode, lo8 vh, hi8 vh, lo8 off, hi8 off]
     = [EvRsp (ReadBlobResponseCode # take (mtu - 1) (drop (unat off) v))]"
  by (simp add: value_server_def le16_lo8_hi8 opcode_defs)

subsection \<open>The subscription entry that \<open>setHandlers\<close> leaves\<close>

lemma or_and_same: "((x :: u16) OR f) AND f = f"
  by (simp add: bit_eq_iff bit_and_iff bit_or_iff)

lemma setHandlers_subscribed:
  assumes "flag \<noteq> 0" and "setHandlers g d vh flag (Some h) p = (None, p')"
  shows "\<exists>s. subs p' vh = Some s \<and> (ccc s AND flag) \<noteq> 0"
  using assms
  by (auto simp: setHandlers_def Let_def or_and_same split: if_splits prod.splits sum.splits)

lemma setHandlers_again:
  assumes "subs p vh = Some s" and "(ccc s AND flag) \<noteq> 0"
  shows "setHandlers g d vh flag (Some h') p = (None, p)"
proof -
  have "(subs p)(vh \<mapsto> s) = subs p"
    using assms(1) by (rule map_upd_triv)
  then show ?thesis
    using assms by (simp add: setHandlers_def Let_def)
qed

lemma setHandlers_clear:
  assumes "\<forall>s. subs p vh = Some s \<longrightarrow> (ccc s AND flag) = 0"
  shows "fst (setHandlers g d vh flag None p) = None
         \<and> ac (snd (setHandlers g d vh flag None p)) = ac p"
  using assms by (auto simp: setHandlers_def Let_def split: option.splits)

lemma ccc_flags: "cccNotify \<noteq> 0" "cccIndicate \<noteq> 0"
  by (simp_all add: cccNotify_def cccIndicate_def)

subsection \<open>What one turn of \<open>Loop\<close> adds to the trace\<close>





subsection \<open>The buffer goes back into the channel\<close>

lemma request_keeps_chTxBuf:
  "chTxBuf (snd (snd (request n build parse txBuf c))) = chTxBuf c"
  using sendReq_keeps(1)[of _ c]
  by (auto simp: request_def split: prod.splits bool.splits sum.splits)
     (metis snd_conv)+





subsection \<open>From the first frame that arrives to the result of the operation\<close>

lemma request_outcome:
  assumes "n \<le> length buf" and "build (True, take n buf) = (True, b0 # bs)"
    and "wfail (l2c c) = []" and "events c = EvRsp (r0 # rs) # evs"
  shows "(r0 = ErrorResponseCode \<or> r0 = rspOfReq b0
            \<longrightarrow> fst (request n build parse buf c) = parse (r0 # rs))
         \<and> (r0 \<noteq> ErrorResponseCode \<and> r0 \<noteq> rspOfReq b0 \<and> evs = [] \<and> peer (l2c c) (b0 # bs) = []
            \<longrightarrow> fst (request n build parse buf c) = Inl ErrSeqProtoTimeout)"
proof (intro conjI impI)
  assume "r0 = ErrorResponseCode \<or> r0 = rspOfReq b0"
  then show "fst (request n build parse buf c) = parse (r0 # rs)"
    using assms sendReq_answered[of c b0 bs r0 rs "evs @ peer (l2c c) (b0 # bs)"]
    by (simp add: request_def)
next
  assume "r0 \<noteq> ErrorResponseCode \<and> r0 \<noteq> rspOfReq b0 \<and> evs = [] \<and> peer (l2c c) (b0 # bs) = []"
  then show "fst (request n build parse buf c) = Inl ErrSeqProtoTimeout"
    using assms by (simp add: request_def sendReq_def l2c_Write_def)
qed

lemma with_txBuf_fst:
  assumes "chTxBuf c = [buf]"
    and "chTxBuf (snd (snd (body buf (c\<lparr>chTxBuf := []\<rparr>)))) = []"
  shows "fst (with_txBuf body c) = fst (body buf (c\<lparr>chTxBuf := []\<rparr>))"
  using assms by (auto simp: with_txBuf_def split: prod.splits)

lemma op_outcome:
  assumes "chTxBuf c = [buf]" and "n \<le> length buf"
    and "build (True, take n buf) = (True, b0 # bs)"
    and "wfail (l2c c) = []" and "events c = EvRsp (r0 # rs) # evs"
  shows "(r0 = ErrorResponseCode \<or> r0 = rspOfReq b0
            \<longrightarrow> fst (with_txBuf (request n build parse) c) = parse (r0 # rs))
         \<and> (r0 \<noteq> ErrorResponseCode \<and> r0 \<noteq> rspOfReq b0 \<and> evs = [] \<and> (\<forall>b. peer (l2c c) b = [])
            \<longrightarrow> fst (with_txBuf (request n build parse) c) = Inl ErrSeqProtoTimeout)"
proof -
  have k: "chTxBuf (snd (snd (request n build parse buf (c\<lparr>chTxBuf := []\<rparr>)))) = []"
    by (simp add: request_keeps_chTxBuf)
  show ?thesis
    unfolding with_txBuf_fst[of c buf "request n build parse", OF assms(1) k]
    using request_outcome[of n buf build b0 bs "c\<lparr>chTxBuf := []\<rparr>" r0 rs evs parse] assms
    by simp
qed

lemma error_rsp:
  "ExchangeMTU_rsp g (ErrorResponseCode # rs)
     = (if length rs = 4 then Inl (ATTError (rs ! 3)) else Inl ErrInvalidResponse)"
  "FindInformation_rsp g (ErrorResponseCode # rs)
     = (if length rs = 4 then Inl (ATTError (rs ! 3)) else Inl ErrInvalidResponse)"
  "ReadByType_rsp g (ErrorResponseCode # rs)
     = (if length rs = 4 then Inl (ATTError (rs ! 3)) else Inl ErrInvalidResponse)"
  "Read_rsp g (ErrorResponseCode # rs)
     = (if length rs = 4 then Inl (ATTError (rs ! 3)) else Inl ErrInvalidResponse)"
  "ReadBlob_rsp g (ErrorResponseCode # rs)
     = (if length rs = 4 then Inl (ATTError (rs ! 3)) else Inl ErrInvalidResponse)"
  "ReadMultiple_rsp g (ErrorResponseCode # rs)
     = (if length rs = 4 then Inl (ATTError (rs ! 3)) else Inl ErrInvalidResponse)"
  "ReadByGroupType_rsp g (ErrorResponseCode # rs)
     = (if length rs = 4 then Inl (ATTError (rs ! 3)) else Inl ErrInvalidResponse)"
  "Write_rsp g (ErrorResponseCode # rs)
     = (if length rs = 4 then Inl (ATTError (rs ! 3)) else Inl ErrInvalidResponse)"
  "PrepareWrite_rsp g (ErrorResponseCode # rs)
     = (if length rs = 4 then Inl (ATTError (rs ! 3)) else Inl ErrInvalidResponse)"
  by (simp_all add: ExchangeMTU_rsp_def FindInformation_rsp_def ReadByType_rsp_def Read_rsp_def
        ReadBlob_rsp_def ReadMultiple_rsp_def ReadByGroupType_rsp_def Write_rsp_def
        PrepareWrite_rsp_def)

lemma ExecuteWrite_error_rsp:
  "length rs = 4 \<Longrightarrow> ExecuteWrite_rsp g (ErrorResponseCode # rs) = Inl (ATTError (rs ! 3))"
  by (simp add: ExecuteWrite_rsp_def)

lemma short_rsp:
  "length rs \<noteq> 2 \<Longrightarrow> ExchangeMTU_rsp g (ExchangeMTUResponseCode # rs) = Inl ErrInvalidResponse"
  "fails_length_check (ReqFindInformation s e) (FindInformationResponseCode # rs)
     \<Longrightarrow> FindInformation_rsp g (FindInformationResponseCode # rs) = Inl ErrInvalidResponse"
  "fails_length_check (ReqReadByType s e u) (ReadByTypeResponseCode # rs)
     \<Longrightarrow> ReadByType_rsp g (ReadByTypeResponseCode # rs) = Inl ErrInvalidResponse"
  "fails_length_check (ReqReadByGroupType s e u)  (ReadByGroupTypeResponseCode # rs)
     \<Longrightarrow> ReadByGroupType_rsp g (ReadByGroupTypeResponseCode # rs) = Inl ErrInvalidResponse"
  "length rs < 4 \<Longrightarrow> PrepareWrite_rsp g (PrepareWriteResponseCode # rs) = Inl ErrInvalidResponse"
  by (auto simp: ExchangeMTU_rsp_def FindInformation_rsp_def ReadByType_rsp_def
        ReadByGroupType_rsp_def PrepareWrite_rsp_def opcode_defs)


lemma Read_outcome:
  assumes "chTxBuf c = [buf]" and "int (length buf) = txMTU (l2c c)" and "23 \<le> txMTU (l2c c)"
    and "wfail (l2c c) = []" and "events c = EvRsp (r0 # rs) # evs"
  shows "(r0 = ErrorResponseCode \<or> r0 = ReadResponseCode
            \<longrightarrow> fst (Read g h c) = Read_rsp g (r0 # rs))
         \<and> (r0 \<noteq> ErrorResponseCode \<and> r0 \<noteq> ReadResponseCode \<and> evs = [] \<and> (\<forall>b. peer (l2c c) b = [])
            \<longrightarrow> fst (Read g h c) = Inl ErrSeqProtoTimeout)"
proof -
  have fit: "3 \<le> length buf"
    using assms by simp
  have "\<exists>bs. (\<lambda>r. put16 1 h (set8 0 ReadRequestCode r)) (True, take (3) buf) = (True, ReadRequestCode # bs)"
    using fit by (simp add: frame3 del: One_nat_def)
  then obtain bs where
    build: "(\<lambda>r. put16 1 h (set8 0 ReadRequestCode r)) (True, take (3) buf) = (True, ReadRequestCode # bs)"
    by blast
  have r: "rspOfReq ReadRequestCode = ReadResponseCode"
    by (simp add: rspOfReq_def opcode_defs)
  show ?thesis
    using op_outcome[of c buf "3" "\<lambda>r. put16 1 h (set8 0 ReadRequestCode r)" ReadRequestCode bs r0 rs evs "Read_rsp g",
        OF assms(1) fit build assms(4,5)] assms r
    by (simp add: Read_def del: One_nat_def)
qed

lemma ReadBlob_outcome:
  assumes "chTxBuf c = [buf]" and "int (length buf) = txMTU (l2c c)" and "23 \<le> txMTU (l2c c)"
    and "wfail (l2c c) = []" and "events c = EvRsp (r0 # rs) # evs"
  shows "(r0 = ErrorResponseCode \<or> r0 = ReadBlobResponseCode
            \<longrightarrow> fst (ReadBlob g h off c) = ReadBlob_rsp g (r0 # rs))
         \<and> (r0 \<noteq> ErrorResponseCode \<and> r0 \<noteq> ReadBlobResponseCode \<and> evs = [] \<and> (\<forall>b. peer (l2c c) b = [])
            \<longrightarrow> fst (ReadBlob g h off c) = Inl ErrSeqProtoTimeout)"
proof -
  have fit: "5 \<le> length buf"
    using assms by simp
  have "\<exists>bs. (\<lambda>r. put16 3 off (put16 1 h (set8 0 ReadBlobRequestCode r))) (True, take (5) buf) = (True, ReadBlobRequestCode # bs)"
    using fit by (simp add: frame5 del: One_nat_def)
  then obtain bs where
    build: "(\<lambda>r. put16 3 off (put16 1 h (set8 0 ReadBlobRequestCode r))) (True, take (5) buf) = (True, ReadBlobRequestCode # bs)"
    by blast
  have r: "rspOfReq ReadBlobRequestCode = ReadBlobResponseCode"
    by (simp add: rspOfReq_def opcode_defs)
  show ?thesis
    using op_outcome[of c buf "5" "\<lambda>r. put16 3 off (put16 1 h (set8 0 ReadBlobRequestCode r))" ReadBlobRequestCode bs r0 rs evs "ReadBlob_rsp g",
        OF assms(1) fit build assms(4,5)] assms r
    by (simp add: ReadBlob_def del: One_nat_def)
qed

lemma FindInformation_outcome:
  assumes "chTxBuf c = [buf]" and "int (length buf) = txMTU (l2c c)" and "23 \<le> txMTU (l2c c)"
    and "wfail (l2c c) = []" and "events c = EvRsp (r0 # rs) # evs"
    and "\<not> (starth = 0 \<or> starth > endh)"
  shows "(r0 = ErrorResponseCode \<or> r0 = FindInformationResponseCode
            \<longrightarrow> fst (FindInformation g starth endh c) = FindInformation_rsp g (r0 # rs))
         \<and> (r0 \<noteq> ErrorResponseCode \<and> r0 \<noteq> FindInformationResponseCode \<and> evs = [] \<and> (\<forall>b. peer (l2c c) b = [])
            \<longrightarrow> fst (FindInformation g starth endh c) = Inl ErrSeqProtoTimeout)"
proof -
  have fit: "5 \<le> length buf"
    using assms by simp
  have "\<exists>bs. (\<lambda>r. put16 3 endh (put16 1 starth (set8 0 FindInformationRequestCode r))) (True, take (5) buf) = (True, FindInformationRequestCode # bs)"
    using fit by (simp add: frame5 del: One_nat_def)
  then obtain bs where
    build: "(\<lambda>r. put16 3 endh (put16 1 starth (set8 0 FindInformationRequestCode r))) (True, take (5) buf) = (True, FindInformationRequestCode # bs)"
    by blast
  have r: "rspOfReq FindInformationRequestCode = FindInformationResponseCode"
    by (simp add: rspOfReq_def opcode_defs)
  show ?thesis
    using op_outcome[of c buf "5" "\<lambda>r. put16 3 endh (put16 1 starth (set8 0 FindInformationRequestCode r))" FindInformationRequestCode bs r0 rs evs "FindInformation_rsp g",
        OF assms(1) fit build assms(4,5)] assms r
    by (simp add: FindInformation_def del: One_nat_def)
qed

lemma ReadByType_outcome:
  assumes "chTxBuf c = [buf]" and "int (length buf) = txMTU (l2c c)" and "23 \<le> txMTU (l2c c)"
    and "wfail (l2c c) = []" and "events c = EvRsp (r0 # rs) # evs"
    and "\<not> (starth > endh \<or> (length uuid \<noteq> 2 \<and> length uuid \<noteq> 16))"
  shows "(r0 = ErrorResponseCode \<or> r0 = ReadByTypeResponseCode
            \<longrightarrow> fst (ReadByType g starth endh uuid c) = ReadByType_rsp g (r0 # rs))
         \<and> (r0 \<noteq> ErrorResponseCode \<and> r0 \<noteq> ReadByTypeResponseCode \<and> evs = [] \<and> (\<forall>b. peer (l2c c) b = [])
            \<longrightarrow> fst (ReadByType g starth endh uuid c) = Inl ErrSeqProtoTimeout)"
proof -
  have fit: "5 + length uuid \<le> length buf"
    using assms by auto
  have "\<exists>bs. (\<lambda>r. copy_at 5 uuid (put16 3 endh (put16 1 starth (set8 0 ReadByTypeRequestCode r)))) (True, take (5 + length uuid) buf) = (True, ReadByTypeRequestCode # bs)"
    using fit by (simp add: frame5_uuid del: One_nat_def)
  then obtain bs where
    build: "(\<lambda>r. copy_at 5 uuid (put16 3 endh (put16 1 starth (set8 0 ReadByTypeRequestCode r)))) (True, take (5 + length uuid) buf) = (True, ReadByTypeRequestCode # bs)"
    by blast
  have r: "rspOfReq ReadByTypeRequestCode = ReadByTypeResponseCode"
    by (simp add: rspOfReq_def opcode_defs)
  show ?thesis
    using op_outcome[of c buf "5 + length uuid" "\<lambda>r. copy_at 5 uuid (put16 3 endh (put16 1 starth (set8 0 ReadByTypeRequestCode r)))" ReadByTypeRequestCode bs r0 rs evs "ReadByType_rsp g",
        OF assms(1) fit build assms(4,5)] assms r
    by (auto simp: ReadByType_def simp del: One_nat_def)
qed

lemma ReadByGroupType_outcome:
  assumes "chTxBuf c = [buf]" and "int (length buf) = txMTU (l2c c)" and "23 \<le> txMTU (l2c c)"
    and "wfail (l2c c) = []" and "events c = EvRsp (r0 # rs) # evs"
    and "\<not> (starth > endh \<or> (length uuid \<noteq> 2 \<and> length uuid \<noteq> 16))"
  shows "(r0 = ErrorResponseCode \<or> r0 = ReadByGroupTypeResponseCode
            \<longrightarrow> fst (ReadByGroupType g starth endh uuid c) = ReadByGroupType_rsp g (r0 # rs))
         \<and> (r0 \<noteq> ErrorResponseCode \<and> r0 \<noteq> ReadByGroupTypeResponseCode \<and> evs = [] \<and> (\<forall>b. peer (l2c c) b = [])
            \<longrightarrow> fst (ReadByGroupType g starth endh uuid c) = Inl ErrSeqProtoTimeout)"
proof -
  have fit: "5 + length uuid \<le> length buf"
    using assms by auto
  have "\<exists>bs. (\<lambda>r. copy_at 5 uuid (put16 3 endh (put16 1 starth (set8 0 ReadByGroupTypeRequestCode r)))) (True, take (5 + length uuid) buf) = (True, ReadByGroupTypeRequestCode # bs)"
    using fit by (simp add: frame5_uuid del: One_nat_def)
  then obtain bs where
    build: "(\<lambda>r. copy_at 5 uuid (put16 3 endh (put16 1 starth (set8 0 ReadByGroupTypeRequestCode r)))) (True, take (5 + length uuid) buf) = (True, ReadByGroupTypeRequestCode # bs)"
    by blast
  have r: "rspOfReq ReadByGroupTypeRequestCode = ReadByGroupTypeResponseCode"
    by (simp add: rspOfReq_def opcode_defs)
  show ?thesis
    using op_outcome[of c buf "5 + length uuid" "\<lambda>r. copy_at 5 uuid (put16 3 endh (put16 1 starth (set8 0 ReadByGroupTypeRequestCode r)))" ReadByGroupTypeRequestCode bs r0 rs evs "ReadByGroupType_rsp g",
        OF assms(1) fit build assms(4,5)] assms r
    by (auto simp: ReadByGroupType_def simp del: One_nat_def)
qed

lemma Write_outcome:
  assumes "chTxBuf c = [buf]" and "int (length buf) = txMTU (l2c c)" and "23 \<le> txMTU (l2c c)"
    and "wfail (l2c c) = []" and "events c = EvRsp (r0 # rs) # evs"
    and "\<not> int (length v) > txMTU (l2c c) - 3"
  shows "(r0 = ErrorResponseCode \<or> r0 = WriteResponseCode
            \<longrightarrow> fst (Write g h v c) = Write_rsp g (r0 # rs))
         \<and> (r0 \<noteq> ErrorResponseCode \<and> r0 \<noteq> WriteResponseCode \<and> evs = [] \<and> (\<forall>b. peer (l2c c) b = [])
            \<longrightarrow> fst (Write g h v c) = Inl ErrSeqProtoTimeout)"
proof -
  have fit: "3 + length v \<le> length buf"
    using assms by simp
  have "\<exists>bs. (\<lambda>r. copy_at 3 v (put16 1 h (set8 0 WriteRequestCode r))) (True, take (3 + length v) buf) = (True, WriteRequestCode # bs)"
    using fit by (simp add: frame3_value del: One_nat_def)
  then obtain bs where
    build: "(\<lambda>r. copy_at 3 v (put16 1 h (set8 0 WriteRequestCode r))) (True, take (3 + length v) buf) = (True, WriteRequestCode # bs)"
    by blast
  have r: "rspOfReq WriteRequestCode = WriteResponseCode"
    by (simp add: rspOfReq_def opcode_defs)
  show ?thesis
    using op_outcome[of c buf "3 + length v" "\<lambda>r. copy_at 3 v (put16 1 h (set8 0 WriteRequestCode r))" WriteRequestCode bs r0 rs evs "Write_rsp g",
        OF assms(1) fit build assms(4,5)] assms r
    by (simp add: Write_def del: One_nat_def)
qed

lemma PrepareWrite_outcome:
  assumes "chTxBuf c = [buf]" and "int (length buf) = txMTU (l2c c)" and "23 \<le> txMTU (l2c c)"
    and "wfail (l2c c) = []" and "events c = EvRsp (r0 # rs) # evs"
    and "\<not> int (length v) > txMTU (l2c c) - 5"
  shows "(r0 = ErrorResponseCode \<or> r0 = PrepareWriteResponseCode
            \<longrightarrow> fst (PrepareWrite g h off v c) = PrepareWrite_rsp g (r0 # rs))
         \<and> (r0 \<noteq> ErrorResponseCode \<and> r0 \<noteq> PrepareWriteResponseCode \<and> evs = [] \<and> (\<forall>b. peer (l2c c) b = [])
            \<longrightarrow> fst (PrepareWrite g h off v c) = Inl ErrSeqProtoTimeout)"
proof -
  have fit: "5 + length v \<le> length buf"
    using assms by simp
  have "\<exists>bs. (\<lambda>r. put16 3 off (put16 1 h (set8 0 PrepareWriteRequestCode r))) (True, take (5 + length v) buf) = (True, PrepareWriteRequestCode # bs)"
    using fit by (simp add: frame5_tail del: One_nat_def)
  then obtain bs where
    build: "(\<lambda>r. put16 3 off (put16 1 h (set8 0 PrepareWriteRequestCode r))) (True, take (5 + length v) buf) = (True, PrepareWriteRequestCode # bs)"
    by blast
  have r: "rspOfReq PrepareWriteRequestCode = PrepareWriteResponseCode"
    by (simp add: rspOfReq_def opcode_defs)
  show ?thesis
    using op_outcome[of c buf "5 + length v" "\<lambda>r. put16 3 off (put16 1 h (set8 0 PrepareWriteRequestCode r))" PrepareWriteRequestCode bs r0 rs evs "PrepareWrite_rsp g",
        OF assms(1) fit build assms(4,5)] assms r
    by (simp add: PrepareWrite_def del: One_nat_def)
qed


lemma ReadMultiple_frame:
  assumes "1 + length hs * 2 \<le> length buf"
  shows "\<exists>bs. (\<lambda>r. put_handles 1 hs (set8 0 ReadMultipleRequestCode r))
               (True, take (1 + length hs * 2) buf)
             = (True, ReadMultipleRequestCode # bs)"
proof -
  let ?r = "take (1 + length hs * 2) buf"
  obtain a rest where r: "?r = a # rest"
    using assms by (cases ?r) auto
  have len: "1 + 2 * length hs \<le> length (ReadMultipleRequestCode # rest)"
    using assms r by (metis length_Cons length_take min.absorb2 mult.commute order_refl)
  from put_handles_ok[OF len] obtain r' where
    r': "put_handles 1 hs (True, ReadMultipleRequestCode # rest) = (True, r')"
    "take 1 r' = take 1 (ReadMultipleRequestCode # rest)"
    by blast
  from r'(2) obtain bs where "r' = ReadMultipleRequestCode # bs"
    by (cases r') auto
  with r'(1) r show ?thesis
    by (simp add: set8_ok)
qed

lemma ReadMultiple_outcome:
  assumes "chTxBuf c = [buf]" and "int (length buf) = txMTU (l2c c)" and "23 \<le> txMTU (l2c c)"
    and "wfail (l2c c) = []" and "events c = EvRsp (r0 # rs) # evs"
    and "\<not> (length hs < 2 \<or> int (length hs) * 2 > txMTU (l2c c) - 1)"
  shows "(r0 = ErrorResponseCode \<or> r0 = ReadMultipleResponseCode
            \<longrightarrow> fst (ReadMultiple g hs c) = ReadMultiple_rsp g (r0 # rs))
         \<and> (r0 \<noteq> ErrorResponseCode \<and> r0 \<noteq> ReadMultipleResponseCode \<and> evs = []
             \<and> (\<forall>b. peer (l2c c) b = [])
            \<longrightarrow> fst (ReadMultiple g hs c) = Inl ErrSeqProtoTimeout)"
proof -
  have fit: "1 + length hs * 2 \<le> length buf"
    using assms by auto
  from ReadMultiple_frame[OF fit] obtain bs where
    build: "(\<lambda>r. put_handles 1 hs (set8 0 ReadMultipleRequestCode r))
              (True, take (1 + length hs * 2) buf) = (True, ReadMultipleRequestCode # bs)"
    by blast
  have r: "rspOfReq ReadMultipleRequestCode = ReadMultipleResponseCode"
    by (simp add: rspOfReq_def opcode_defs)
  show ?thesis
    using op_outcome[of c buf "1 + length hs * 2"
        "\<lambda>r. put_handles 1 hs (set8 0 ReadMultipleRequestCode r)" ReadMultipleRequestCode bs
        r0 rs evs "ReadMultiple_rsp g", OF assms(1) fit build assms(4,5)] assms r
    by (auto simp: ReadMultiple_def simp del: One_nat_def)
qed

lemma ExchangeMTU_outcome:
  assumes "chTxBuf c = [buf]" and "int (length buf) = txMTU (l2c c)" and "23 \<le> txMTU (l2c c)"
    and "wfail (l2c c) = []" and "events c = EvRsp (r0 # rs) # evs"
    and "\<not> (m < DefaultMTU \<or> m > MaxMTU)"
  shows "(r0 = ErrorResponseCode \<or> r0 = ExchangeMTUResponseCode
            \<longrightarrow> err_of (fst (ExchangeMTU g m c)) = err_of (ExchangeMTU_rsp g (r0 # rs)))
         \<and> (r0 \<noteq> ErrorResponseCode \<and> r0 \<noteq> ExchangeMTUResponseCode \<and> evs = []
             \<and> (\<forall>b. peer (l2c c) b = [])
            \<longrightarrow> err_of (fst (ExchangeMTU g m c)) = Some ErrSeqProtoTimeout)"
proof -
  let ?build = "\<lambda>r. put16 1 (word_of_int m) (set8 0 ExchangeMTURequestCode r)"
  let ?c1 = "c\<lparr>chTxBuf := [], l2c := SetRxMTU m (l2c c)\<rparr>"
  let ?body = "\<lambda>txBuf c1.
        (case request 3 ?build (ExchangeMTU_rsp g) txBuf (c1\<lparr>l2c := SetRxMTU m (l2c c1)\<rparr>) of
           (Inl e, buf, c2) \<Rightarrow> (Inl e, buf, c2)
         | (Inr txMTU', buf, c2) \<Rightarrow>
             if int (length buf) \<noteq> txMTU'
             then (Inr txMTU', replicate (nat txMTU') 0,
                   c2\<lparr>l2c := SetTxMTU txMTU' (l2c c2)\<rparr>)
             else (Inr txMTU', buf, c2))"
  have fit: "3 \<le> length buf"
    using assms by simp
  have build: "?build (True, take 3 buf)
                 = (True, ExchangeMTURequestCode # [lo8 (word_of_int m), hi8 (word_of_int m)])"
    using fit by (simp add: frame3 del: One_nat_def)
  have r: "rspOfReq ExchangeMTURequestCode = ExchangeMTUResponseCode"
    by (simp add: rspOfReq_def opcode_defs)
  have env: "wfail (l2c ?c1) = []" "events ?c1 = EvRsp (r0 # rs) # evs"
    "peer (l2c ?c1) = peer (l2c c)"
    using assms by (simp_all add: SetRxMTU_def)
  note o = request_outcome[of 3 buf ?build ExchangeMTURequestCode _ ?c1 r0 rs evs
      "ExchangeMTU_rsp g", OF fit build env(1,2)]
  have keep: "chTxBuf (snd (snd (?body buf (c\<lparr>chTxBuf := []\<rparr>)))) = []"
    using request_keeps_chTxBuf[of 3 ?build "ExchangeMTU_rsp g" buf ?c1]
    by (auto split: prod.splits sum.splits)
  have e: "err_of (fst (?body buf (c\<lparr>chTxBuf := []\<rparr>)))
             = err_of (fst (request 3 ?build (ExchangeMTU_rsp g) buf ?c1))"
    by (auto simp: err_of_def split: prod.splits sum.splits)
  have "fst (ExchangeMTU g m c) = fst (?body buf (c\<lparr>chTxBuf := []\<rparr>))"
    using assms(6) with_txBuf_fst[of c buf ?body, OF assms(1) keep]
    by (simp add: ExchangeMTU_def)
  then show ?thesis
    using o e r env(3) by (auto simp: err_of_def)
qed

subsection \<open>C1: the range of \<open>clientRxMTU\<close> that \<open>ExchangeMTU\<close> accepts\<close>

text \<open>
  C1, as stated, at the MTU it names: \<open>ExchangeMTU(185)\<close> on a fresh client of a
  connection with MTU 23 returns \<open>ErrInvalidArgument\<close> and leaves the client as it
  was, because \<open>DefaultMTU\<close> is 339 and the guard refuses everything below it.
\<close>

theorem ExchangeMTU_185_rejected:
  "ExchangeMTU Declared 185 (idle_client 23 []) = (Inl ErrInvalidArgument, idle_client 23 [])"
  by (simp add: ExchangeMTU_def DefaultMTU_def)

text \<open>
  C1, amended: \<open>ExchangeMTU\<close> returns \<open>ErrInvalidArgument\<close> exactly when
  \<open>clientRxMTU\<close> is below 339 or above 515. Every value from 339 to 515 passes the
  validation, whatever the client's state and whatever the peer does afterwards.
\<close>

theorem ExchangeMTU_InvalidArgument_iff:
  "fst (ExchangeMTU g clientRxMTU c) = Inl ErrInvalidArgument
     \<longleftrightarrow> clientRxMTU < 339 \<or> 515 < clientRxMTU"
proof (cases "clientRxMTU < 339 \<or> 515 < clientRxMTU")
  case True
  then show ?thesis by (auto simp: ExchangeMTU_def DefaultMTU_def MaxMTU_def)
next
  case False
  have "fst (case request n build (ExchangeMTU_rsp g) txBuf c1 of
               (Inl e, buf, c2) \<Rightarrow> (Inl e, buf, c2)
             | (Inr m, buf, c2) \<Rightarrow>
                 if int (length buf) \<noteq> m
                 then (Inr m, replicate (nat m) 0, c2\<lparr>l2c := SetTxMTU m (l2c c2)\<rparr>)
                 else (Inr m, buf, c2)) \<noteq> Inl ErrInvalidArgument" for n build txBuf c1
    using request_not_InvalidArgument[of "ExchangeMTU_rsp g" n build txBuf c1]
      ExchangeMTU_rsp_not_InvalidArgument
    by (auto split: prod.splits sum.splits)
  then have "fst (with_txBuf (\<lambda>txBuf c1.
        (case request 3
                (\<lambda>r. put16 1 (word_of_int clientRxMTU) (set8 0 ExchangeMTURequestCode r))
                (ExchangeMTU_rsp g) txBuf (c1\<lparr>l2c := SetRxMTU clientRxMTU (l2c c1)\<rparr>) of
           (Inl e, buf, c2) \<Rightarrow> (Inl e, buf, c2)
         | (Inr txMTU', buf, c2) \<Rightarrow>
             if int (length buf) \<noteq> txMTU'
             then (Inr txMTU', replicate (nat txMTU') 0,
                   c2\<lparr>l2c := SetTxMTU txMTU' (l2c c2)\<rparr>)
             else (Inr txMTU', buf, c2))) c) \<noteq> Inl ErrInvalidArgument"
    by (intro with_txBuf_not_InvalidArgument)
  with False show ?thesis
    by (simp add: ExchangeMTU_def DefaultMTU_def MaxMTU_def)
qed

text \<open>The two sides of the bound, on a fresh client: 339 passes, 338 does not.\<close>

theorem ExchangeMTU_InvalidArgument_iff_witness:
  "fst (ExchangeMTU Declared 339 (idle_client 23 [])) \<noteq> Inl ErrInvalidArgument
   \<and> fst (ExchangeMTU Declared 338 (idle_client 23 [])) = Inl ErrInvalidArgument"
  using ExchangeMTU_InvalidArgument_iff[of Declared 339 "idle_client 23 []"]
    ExchangeMTU_InvalidArgument_iff[of Declared 338 "idle_client 23 []"]
  by simp


subsection \<open>C3: the MTU that \<open>ExchangeMTU\<close> installs\<close>

text \<open>
  C3, as stated, fails: the client asks for 339 and the server answers 515 (bytes
  \<open>03 03 02\<close>). \<open>ExchangeMTU\<close> returns 515 and sets \<open>TxMTU\<close> to 515; the minimum of
  the two would be 339.
\<close>

theorem ExchangeMTU_not_min:
  "fst (ExchangeMTU Declared 339 (idle_client 23 [EvRsp [0x03, 0x03, 0x02]])) = Inr 515
   \<and> txMTU (l2c (snd (ExchangeMTU Declared 339 (idle_client 23 [EvRsp [0x03, 0x03, 0x02]])))) = 515
   \<and> min (339 :: int) 515 \<noteq> 515"
  by code_simp

text \<open>
  C3, amended: when \<open>ExchangeMTU(clientRxMTU)\<close> receives a well-formed response that
  carries \<open>serverRxMTU\<close>, it returns \<open>serverRxMTU\<close>, the connection's \<open>TxMTU\<close> is
  \<open>serverRxMTU\<close> and its \<open>RxMTU\<close> is \<open>clientRxMTU\<close>, and the channel holds one
  buffer of exactly \<open>serverRxMTU\<close> bytes. The client starts with its buffer as long
  as the connection's \<open>TxMTU\<close>, which is how \<open>NewClient\<close> and \<open>ExchangeMTU\<close> leave
  it. No minimum is taken.
\<close>

theorem ExchangeMTU_installs_ServerRxMTU:
  assumes "339 \<le> m" and "m \<le> 515"
    and "chTxBuf c = [buf]" and "int (length buf) = txMTU (l2c c)" and "3 \<le> length buf"
    and "sendReq [ExchangeMTURequestCode, lo8 (word_of_int m), hi8 (word_of_int m)]
           (c\<lparr>chTxBuf := [], l2c := SetRxMTU m (l2c c)\<rparr>)
         = (Inr [ExchangeMTUResponseCode, lo8 srv, hi8 srv], c')"
  shows "fst (ExchangeMTU g m c) = Inr (uint srv)
         \<and> txMTU (l2c (snd (ExchangeMTU g m c))) = uint srv
         \<and> rxMTU (l2c (snd (ExchangeMTU g m c))) = m
         \<and> map length (chTxBuf (snd (ExchangeMTU g m c))) = [unat srv]"
proof -
  let ?req = "[ExchangeMTURequestCode, lo8 (word_of_int m), hi8 (word_of_int m)]"
  let ?c1 = "c\<lparr>chTxBuf := [], l2c := SetRxMTU m (l2c c)\<rparr>"
  have build: "put16 1 (word_of_int m) (set8 0 ExchangeMTURequestCode (True, take 3 buf))
                 = (True, ?req)"
    using assms(5) by (intro frame3) simp
  have keep: "chTxBuf c' = []" "txMTU (l2c c') = txMTU (l2c c)" "rxMTU (l2c c') = m"
    using sendReq_keeps[of ?req ?c1] assms(6) by (simp_all add: SetRxMTU_def)
  have rsp: "ExchangeMTU_rsp g [ExchangeMTUResponseCode, lo8 srv, hi8 srv] = Inr (uint srv)"
    by (cases g) (simp_all add: ExchangeMTU_rsp_def le16_lo8_hi8 opcode_defs)
  have req: "request 3
               (\<lambda>r. put16 1 (word_of_int m) (set8 0 ExchangeMTURequestCode r))
               (ExchangeMTU_rsp g) buf (c\<lparr>chTxBuf := [], l2c := SetRxMTU m (l2c c)\<rparr>)
             = (Inr (uint srv), ?req @ drop 3 buf, c')"
    using assms(5,6) build rsp by (simp add: request_def)
  have len: "length (?req @ drop 3 buf) = length buf"
    using assms(5) by simp
  have eq: "txMTU (l2c c) = uint srv \<Longrightarrow> length buf = unat srv"
    using assms(4) by (metis nat_int unat_eq_nat_uint)
  show ?thesis
    using assms(1-4) keep len eq
    by (simp add: ExchangeMTU_def DefaultMTU_def MaxMTU_def with_txBuf_def req SetTxMTU_def
          del: length_append length_drop One_nat_def)
qed

text \<open>The scenario of the specification with a request the guard lets through: 400 asked, 100 answered.\<close>

theorem ExchangeMTU_installs_ServerRxMTU_witness:
  "fst (ExchangeMTU Declared 400 (idle_client 23 [EvRsp [0x03, 0x64, 0x00]])) = Inr 100
   \<and> txMTU (l2c (snd (ExchangeMTU Declared 400 (idle_client 23 [EvRsp [0x03, 0x64, 0x00]])))) = 100
   \<and> rxMTU (l2c (snd (ExchangeMTU Declared 400 (idle_client 23 [EvRsp [0x03, 0x64, 0x00]])))) = 400
   \<and> map length (chTxBuf (snd (ExchangeMTU Declared 400 (idle_client 23 [EvRsp [0x03, 0x64, 0x00]]))))
       = [100]"
proof -
  let ?c = "idle_client 23 [EvRsp [0x03, 0x64, 0x00]]"
  have s: "sendReq [ExchangeMTURequestCode, lo8 (word_of_int 400), hi8 (word_of_int 400)]
             (?c\<lparr>chTxBuf := [], l2c := SetRxMTU 400 (l2c ?c)\<rparr>)
           = (Inr [ExchangeMTUResponseCode, lo8 100, hi8 100],
              \<lparr>l2c = \<lparr>rxMTU = 400, txMTU = 23,
                       written = [[ExchangeMTURequestCode, lo8 (word_of_int 400),
                                   hi8 (word_of_int 400)]],
                       wfail = [], peer = (\<lambda>_. [])\<rparr>,
                chTxBuf = [], events = []\<rparr>)"
    by (simp add: idle_client_def quiet_conn_def sendReq_def l2c_Write_def SetRxMTU_def
          opcode_defs rspOfReq_def lo8_def hi8_def)
  show ?thesis
    using ExchangeMTU_installs_ServerRxMTU
      [of 400 ?c "replicate 23 0" 100 _ Declared, OF _ _ _ _ _ s]
    by (simp add: idle_client_def quiet_conn_def)
qed


subsection \<open>C10: which operations refuse a starting handle of zero\<close>

text \<open>
  C10: \<open>FindInformation\<close> returns \<open>ErrInvalidArgument\<close> exactly when \<open>starth\<close> is 0
  or greater than \<open>endh\<close>. \<open>ReadByType\<close> and \<open>ReadByGroupType\<close> return it exactly
  when \<open>starth\<close> is greater than \<open>endh\<close> or the UUID has neither 2 nor 16 bytes; zero
  is not refused. With \<open>starth = 0\<close>, a UUID of 2 or 16 bytes, the buffer in the
  channel and a write that succeeds, the request with starting handle \<open>00 00\<close> is the
  next frame written to the connection.
\<close>

theorem handle_range_validation:
  "(fst (FindInformation g starth endh c) = Inl ErrInvalidArgument
      \<longleftrightarrow> starth = 0 \<or> starth > endh)
   \<and> (fst (ReadByType g starth endh uuid c) = Inl ErrInvalidArgument
      \<longleftrightarrow> starth > endh \<or> (length uuid \<noteq> 2 \<and> length uuid \<noteq> 16))
   \<and> (fst (ReadByGroupType g starth endh uuid c) = Inl ErrInvalidArgument
      \<longleftrightarrow> starth > endh \<or> (length uuid \<noteq> 2 \<and> length uuid \<noteq> 16))
   \<and> ((length uuid = 2 \<or> length uuid = 16) \<and> chTxBuf c = [buf]
        \<and> 5 + length uuid \<le> length buf \<and> wfail (l2c c) = []
      \<longrightarrow> prefix (written (l2c c) @ [[ReadByTypeRequestCode, 0, 0, lo8 endh, hi8 endh] @ uuid])
            (written (l2c (snd (ReadByType g 0 endh uuid c))))
        \<and> prefix (written (l2c c)
                    @ [[ReadByGroupTypeRequestCode, 0, 0, lo8 endh, hi8 endh] @ uuid])
            (written (l2c (snd (ReadByGroupType g 0 endh uuid c)))))"
proof (intro conjI impI)
  show "fst (FindInformation g starth endh c) = Inl ErrInvalidArgument
          \<longleftrightarrow> starth = 0 \<or> starth > endh"
    using request_op_not_InvalidArgument[of "FindInformation_rsp g"]
    by (simp add: FindInformation_def rsp_not_InvalidArgument)
  show "fst (ReadByType g starth endh uuid c) = Inl ErrInvalidArgument
          \<longleftrightarrow> starth > endh \<or> (length uuid \<noteq> 2 \<and> length uuid \<noteq> 16)"
    using request_op_not_InvalidArgument[of "ReadByType_rsp g"]
    by (simp add: ReadByType_def rsp_not_InvalidArgument)
  show "fst (ReadByGroupType g starth endh uuid c) = Inl ErrInvalidArgument
          \<longleftrightarrow> starth > endh \<or> (length uuid \<noteq> 2 \<and> length uuid \<noteq> 16)"
    using request_op_not_InvalidArgument[of "ReadByGroupType_rsp g"]
    by (simp add: ReadByGroupType_def rsp_not_InvalidArgument)
next
  assume a: "(length uuid = 2 \<or> length uuid = 16) \<and> chTxBuf c = [buf]
        \<and> 5 + length uuid \<le> length buf \<and> wfail (l2c c) = []"
  have len: "length (take (5 + length uuid) buf) = 5 + length uuid"
    using a by simp
  have valid: "\<not> (0 > endh \<or> (length uuid \<noteq> 2 \<and> length uuid \<noteq> 16))"
    using a by auto
  have b1: "(\<lambda>r. copy_at 5 uuid (put16 3 endh (put16 1 0 (set8 0 ReadByTypeRequestCode r))))
              (True, take (5 + length uuid) buf)
            = (True, [ReadByTypeRequestCode, 0, 0, lo8 endh, hi8 endh] @ uuid)"
    using frame5_uuid[OF len, of endh 0 ReadByTypeRequestCode] by (simp add: lo8_hi8_0)
  have b2: "(\<lambda>r. copy_at 5 uuid
                   (put16 3 endh (put16 1 0 (set8 0 ReadByGroupTypeRequestCode r))))
              (True, take (5 + length uuid) buf)
            = (True, [ReadByGroupTypeRequestCode, 0, 0, lo8 endh, hi8 endh] @ uuid)"
    using frame5_uuid[OF len, of endh 0 ReadByGroupTypeRequestCode] by (simp add: lo8_hi8_0)
  have tok: "chTxBuf c = [buf]" and fits: "5 + length uuid \<le> length buf"
    and w: "wfail (l2c c) = []"
    using a by simp_all
  show "prefix (written (l2c c) @ [[ReadByTypeRequestCode, 0, 0, lo8 endh, hi8 endh] @ uuid])
          (written (l2c (snd (ReadByType g 0 endh uuid c))))"
    using request_sent[of c buf "5 + length uuid"
        "\<lambda>r. copy_at 5 uuid (put16 3 endh (put16 1 0 (set8 0 ReadByTypeRequestCode r)))"
        "[ReadByTypeRequestCode, 0, 0, lo8 endh, hi8 endh] @ uuid" "ReadByType_rsp g",
        OF tok fits b1 w] valid
    by (simp add: ReadByType_def del: One_nat_def)
  show "prefix (written (l2c c)
                  @ [[ReadByGroupTypeRequestCode, 0, 0, lo8 endh, hi8 endh] @ uuid])
          (written (l2c (snd (ReadByGroupType g 0 endh uuid c))))"
    using request_sent[of c buf "5 + length uuid"
        "\<lambda>r. copy_at 5 uuid (put16 3 endh (put16 1 0 (set8 0 ReadByGroupTypeRequestCode r)))"
        "[ReadByGroupTypeRequestCode, 0, 0, lo8 endh, hi8 endh] @ uuid"
        "ReadByGroupType_rsp g", OF tok fits b2 w] valid
    by (simp add: ReadByGroupType_def del: One_nat_def)
qed

text \<open>
  On a fresh client with MTU 23: discovery of characteristics (UUID 0x2803) from handle 0
  is sent, the same range is refused by \<open>FindInformation\<close>.
\<close>

theorem handle_range_validation_witness:
  "fst (FindInformation Declared 0 0xFFFF (idle_client 23 [])) = Inl ErrInvalidArgument
   \<and> fst (ReadByType Declared 0 0xFFFF [0x03, 0x28] (idle_client 23 [])) \<noteq> Inl ErrInvalidArgument
   \<and> fst (ReadByGroupType Declared 0 0xFFFF [0x03, 0x28] (idle_client 23 []))
       \<noteq> Inl ErrInvalidArgument
   \<and> prefix [[ReadByTypeRequestCode, 0, 0, 0xFF, 0xFF, 0x03, 0x28]]
       (written (l2c (snd (ReadByType Declared 0 0xFFFF [0x03, 0x28] (idle_client 23 [])))))"
proof -
  have h: "(length [0x03, 0x28 :: byte] = 2 \<or> length [0x03, 0x28 :: byte] = 16)
           \<and> chTxBuf (idle_client 23 []) = [replicate 23 0]
           \<and> 5 + length [0x03, 0x28 :: byte] \<le> length (replicate 23 (0 :: byte))
           \<and> wfail (l2c (idle_client 23 [])) = []"
    by (simp add: idle_client_def quiet_conn_def)
  have w: "written (l2c (idle_client 23 [])) = []"
    by (simp add: idle_client_def quiet_conn_def)
  show ?thesis
    using handle_range_validation
      [of Declared 0 "0xFFFF" "idle_client 23 []" "[0x03, 0x28]" "replicate 23 0"] h
    by (simp add: w lo8_hi8_FFFF)
qed


subsection \<open>C5: a frame that is not the awaited response\<close>





subsection \<open>C2: the requests of a long read\<close>

text \<open>
  C2, as stated, fails: with MTU 23 and the forty-byte value, \<open>ReadLongCharacteristic\<close>
  returns the forty bytes after two requests, \<open>Read\<close> and \<open>ReadBlob\<close> at offset 22.
  The second chunk has 18 bytes, fewer than \<open>TxMTU - 1\<close>, which ends the loop: no
  \<open>ReadBlob\<close> at offset 40 is written, though the loop was allowed three turns.
\<close>

theorem long_read_no_third_request:
  "map_option (\<lambda>(r, ch', p'). (r, written (l2c (ac p'))))
     (ReadLongCharacteristic 3 Declared long_char long_read_client)
   = Some (Inr forty_bytes, [[0x0A, 0x12, 0x00], [0x0C, 0x12, 0x00, 22, 0x00]])
   \<and> [[0x0A, 0x12, 0x00], [0x0C, 0x12, 0x00, 22, 0x00]]
       \<noteq> [[0x0A, 0x12, 0x00], [0x0C, 0x12, 0x00, 22, 0x00], [0x0C, 0x12, 0x00, 40, 0x00 :: byte]]"
  by code_simp

text \<open>
  C2, amended: with \<open>TxMTU = 23\<close> and a peer that holds a value of 40 bytes at the
  value handle, \<open>ReadLongCharacteristic\<close> writes exactly \<open>Read(valueHandle)\<close> and
  then \<open>ReadBlob(valueHandle, offset = 22)\<close>, ends (one turn of its loop is enough),
  returns the 40 bytes of the value and stores them in the characteristic.
\<close>

theorem long_read_two_requests:
  assumes "length v = 40"
    and "ValueHandle ch = vh"
    and "chTxBuf (ac p) = [buf]" and "length buf = 23"
    and "txMTU (l2c (ac p)) = 23" and "wfail (l2c (ac p)) = []"
    and "events (ac p) = []" and "peer (l2c (ac p)) = value_server vh v 23"
  shows "map_option (\<lambda>(r, ch', p'). (r, Value ch', written (l2c (ac p'))))
           (ReadLongCharacteristic (Suc n) g ch p)
         = Some (Inr v, v,
                 written (l2c (ac p))
                   @ [[ReadRequestCode, lo8 vh, hi8 vh],
                      [ReadBlobRequestCode, lo8 vh, hi8 vh, 22, 0]])"
proof -
  let ?r1 = "[ReadRequestCode, lo8 vh, hi8 vh]"
  let ?r2 = "[ReadBlobRequestCode, lo8 vh, hi8 vh, lo8 22, hi8 22]"
  let ?c1 = "(ac p)\<lparr>l2c := (l2c (ac p))\<lparr>written := written (l2c (ac p)) @ [?r1]\<rparr>,
                    events := [], chTxBuf := [?r1 @ drop 3 buf]\<rparr>"
  let ?c2 = "?c1\<lparr>l2c := (l2c ?c1)\<lparr>written := written (l2c ?c1) @ [?r2]\<rparr>,
                 events := [], chTxBuf := [?r2 @ drop 5 (?r1 @ drop 3 buf)]\<rparr>"
  have rd: "Read g vh (ac p) = (Inr (take 22 v), ?c1)"
    using Read_answered[of "ac p" buf vh "take 22 v" "[]" g] assms
    by (simp add: value_server_Read)
  have blob: "ReadBlob g vh (of_nat (length ([] @ take 22 v))) ?c1 = (Inr (drop 22 v), ?c2)"
    using ReadBlob_answered[of ?c1 "?r1 @ drop 3 buf" vh 22 "drop 22 v" "[]" g] assms
    by (simp add: value_server_ReadBlob)
  have l1: "int (length (take 22 v)) \<ge> txMTU (l2c ?c1) - 1"
    using assms by simp
  have l2: "int (length (drop 22 v)) < txMTU (l2c ?c2) - 1"
    using assms by simp
  have loop: "readBlobs (Suc n) g vh (take 22 v) ([] @ take 22 v) ?c1 = Some (Inr v, ?c2)"
    using l1 blob readBlobs_short[OF l2, of n g vh "([] @ take 22 v) @ drop 22 v"]
    by (simp del: One_nat_def)
  have lh: "lo8 22 = 22" "hi8 22 = 0"
    by (simp_all add: lo8_def hi8_def)
  show ?thesis
    unfolding ReadLongCharacteristic_def assms(2) rd
    using loop by (simp add: lh)
qed

text \<open>The sample long read, with one turn of the loop allowed.\<close>

theorem long_read_two_requests_witness:
  "map_option (\<lambda>(r, ch', p'). (r, Value ch', written (l2c (ac p'))))
     (ReadLongCharacteristic 1 Declared long_char long_read_client)
   = Some (Inr forty_bytes, forty_bytes,
           [[ReadRequestCode, 0x12, 0x00], [ReadBlobRequestCode, 0x12, 0x00, 22, 0]])"
proof -
  have h: "length forty_bytes = 40" "ValueHandle long_char = 0x0012"
    "chTxBuf (ac long_read_client) = [replicate 23 0]" "length (replicate 23 (0 :: byte)) = 23"
    "txMTU (l2c (ac long_read_client)) = 23" "wfail (l2c (ac long_read_client)) = []"
    "events (ac long_read_client) = []"
    "peer (l2c (ac long_read_client)) = value_server 0x0012 forty_bytes 23"
    "written (l2c (ac long_read_client)) = []"
    by (simp_all add: forty_bytes_def long_char_def long_read_client_def)
  have lh: "lo8 0x0012 = 0x12" "hi8 0x0012 = 0"
    by (simp_all add: lo8_def hi8_def)
  show ?thesis
    using long_read_two_requests[OF h(1-8), of 0 Declared]
    by (simp add: h(9) lh)
qed


subsection \<open>C8: subscribing twice\<close>

text \<open>
  C8: when \<open>Subscribe(c, ind, h)\<close> with a handler has returned nil, a second
  \<open>Subscribe\<close> for the same characteristic and the same flag, with any handler,
  returns nil and leaves the whole client as it was, the ATT client and the frames
  written to the connection included: no Write goes to the CCCD. And when the CCCD is
  known and the flag is clear (no entry for the value handle, or the bit not set),
  \<open>Unsubscribe\<close> returns nil and leaves the ATT client untouched.
\<close>

theorem Subscribe_idempotent:
  "(fst (Subscribe g c ind (Some h) p) = None
      \<longrightarrow> Subscribe g c ind (Some h') (snd (Subscribe g c ind (Some h) p))
            = (None, snd (Subscribe g c ind (Some h) p)))
   \<and> (CCCD c \<noteq> None
       \<and> (\<forall>s. subs p (ValueHandle c) = Some s
               \<longrightarrow> (ccc s AND (if ind then cccIndicate else cccNotify)) = 0)
      \<longrightarrow> fst (Unsubscribe g c ind p) = None \<and> ac (snd (Unsubscribe g c ind p)) = ac p)"
proof (intro conjI impI)
  assume ok: "fst (Subscribe g c ind (Some h) p) = None"
  let ?flag = "if ind then cccIndicate else cccNotify"
  from ok obtain d where d: "CCCD c = Some d"
    by (cases "CCCD c") (simp_all add: Subscribe_def)
  let ?p' = "snd (setHandlers g (Handle d) (ValueHandle c) ?flag (Some h) p)"
  have first: "setHandlers g (Handle d) (ValueHandle c) ?flag (Some h) p = (None, ?p')"
    using ok d by (simp add: Subscribe_def prod_eq_iff)
  have nz: "?flag \<noteq> 0"
    by (simp add: ccc_flags)
  from setHandlers_subscribed[OF nz first] obtain s where
    s: "subs ?p' (ValueHandle c) = Some s" "(ccc s AND ?flag) \<noteq> 0"
    by blast
  show "Subscribe g c ind (Some h') (snd (Subscribe g c ind (Some h) p))
          = (None, snd (Subscribe g c ind (Some h) p))"
    using setHandlers_again[OF s, of g "Handle d" h'] d
    by (simp add: Subscribe_def)
next
  assume a: "CCCD c \<noteq> None
       \<and> (\<forall>s. subs p (ValueHandle c) = Some s
               \<longrightarrow> (ccc s AND (if ind then cccIndicate else cccNotify)) = 0)"
  then obtain d where d: "CCCD c = Some d"
    by auto
  have u: "fst (Unsubscribe g c ind p) = None \<and> ac (snd (Unsubscribe g c ind p)) = ac p"
  proof (cases ind)
    case True
    with a have "\<forall>s. subs p (ValueHandle c) = Some s \<longrightarrow> (ccc s AND cccIndicate) = 0"
      by simp
    from setHandlers_clear[OF this, of g "Handle d"] True d show ?thesis
      by (simp add: Unsubscribe_def)
  next
    case False
    with a have "\<forall>s. subs p (ValueHandle c) = Some s \<longrightarrow> (ccc s AND cccNotify) = 0"
      by simp
    from setHandlers_clear[OF this, of g "Handle d"] False d show ?thesis
      by (simp add: Unsubscribe_def)
  qed
  show "fst (Unsubscribe g c ind p) = None"
    using u by simp
  show "ac (snd (Unsubscribe g c ind p)) = ac p"
    using u by simp
qed

text \<open>
  On the sample client the first \<open>Subscribe\<close> writes \<open>01 00\<close> to handle 0x0013 and
  succeeds; the second changes nothing. \<open>Unsubscribe\<close> of indications, never
  subscribed, writes nothing.
\<close>

theorem Subscribe_idempotent_witness:
  "fst (Subscribe Declared cccd_char False (Some 1) sub_client) = None
   \<and> written (l2c (ac (snd (Subscribe Declared cccd_char False (Some 1) sub_client))))
       = [[WriteRequestCode, 0x13, 0x00, 0x01, 0x00]]
   \<and> Subscribe Declared cccd_char False (Some 2)
        (snd (Subscribe Declared cccd_char False (Some 1) sub_client))
       = (None, snd (Subscribe Declared cccd_char False (Some 1) sub_client))
   \<and> fst (Unsubscribe Declared cccd_char True sub_client) = None
   \<and> ac (snd (Unsubscribe Declared cccd_char True sub_client)) = ac sub_client"
proof -
  have ok: "fst (Subscribe Declared cccd_char False (Some 1) sub_client) = None"
    by code_simp
  have w: "written (l2c (ac (snd (Subscribe Declared cccd_char False (Some 1) sub_client))))
       = [[WriteRequestCode, 0x13, 0x00, 0x01, 0x00]]"
    by code_simp
  have u: "CCCD cccd_char \<noteq> None
       \<and> (\<forall>s. subs sub_client (ValueHandle cccd_char) = Some s
               \<longrightarrow> (ccc s AND (if True then cccIndicate else cccNotify)) = 0)"
    by (simp add: cccd_char_def sub_client_def)
  show ?thesis
    using Subscribe_idempotent[of Declared cccd_char False 1 sub_client 2]
      Subscribe_idempotent[of Declared cccd_char True 1 sub_client 2] ok w u
    by simp
qed


subsection \<open>C9: an SMP opcode without handler\<close>

text \<open>
  C9: for a frame that has an opcode byte (at least five bytes, the L2CAP header and the
  opcode) whose opcode has no entry in the dispatcher or an entry with a nil handler,
  \<open>manager.Handle\<close> does one thing: it hands the two bytes \<open>05 05\<close> (Pairing Failed,
  Pairing Not Supported) to \<open>send\<close> and returns what \<open>send\<close> returns. The pairing
  state stays as it was, and the PDUs sent grow by exactly that one, unless the transport
  refuses it, in which case the error is returned.
\<close>

theorem unknown_opcode_PairingNotSupported:
  assumes "5 \<le> length inp"
    and "dispatcher (inp ! 4) = None \<or> dispatcher (inp ! 4) = Some None"
  shows "manager_Handle dispatcher inp m
           = (case send [pairingFailed, 0x05] (t m) of (e, tr) \<Rightarrow> (e, m\<lparr>t := tr\<rparr>))
         \<and> state (t (snd (manager_Handle dispatcher inp m))) = state (t m)
         \<and> (sent (t (snd (manager_Handle dispatcher inp m))) = sent (t m) @ [[0x05, 0x05]]
            \<or> sent (t (snd (manager_Handle dispatcher inp m))) = sent (t m)
               \<and> fst (manager_Handle dispatcher inp m) \<noteq> None)"
proof -
  have "hd (drop 4 inp) = inp ! 4"
    using assms(1) by (simp add: hd_drop_conv_nth)
  then show ?thesis
    using assms
    by (auto simp: manager_Handle_def Let_def send_def pairingFailed_def
          split: list.splits option.splits)
qed

text \<open>
  Opcode 0x0F has no entry and 0x0B has no handler: the manager answers \<open>05 05\<close> and
  stays in \<open>WaitPairingResponse\<close>.
\<close>

theorem unknown_opcode_PairingNotSupported_witness:
  "manager_Handle sample_dispatcher [0x02, 0x00, 0x06, 0x00, 0x0F, 0xAA] fresh_manager
     = (None, fresh_manager\<lparr>t := (t fresh_manager)\<lparr>sent := [[0x05, 0x05]]\<rparr>\<rparr>)
   \<and> state (t (snd (manager_Handle sample_dispatcher [0x02, 0x00, 0x06, 0x00, 0x0B, 0xAA]
                      fresh_manager))) = WaitPairingResponse"
proof -
  have h: "5 \<le> length [0x02, 0x00, 0x06, 0x00, 0x0F, 0xAA :: byte]"
    "sample_dispatcher ([0x02, 0x00, 0x06, 0x00, 0x0F, 0xAA] ! 4) = None
     \<or> sample_dispatcher ([0x02, 0x00, 0x06, 0x00, 0x0F, 0xAA] ! 4) = Some None"
    by (simp_all add: sample_dispatcher_def)
  have h': "5 \<le> length [0x02, 0x00, 0x06, 0x00, 0x0B, 0xAA :: byte]"
    "sample_dispatcher ([0x02, 0x00, 0x06, 0x00, 0x0B, 0xAA] ! 4) = None
     \<or> sample_dispatcher ([0x02, 0x00, 0x06, 0x00, 0x0B, 0xAA] ! 4) = Some None"
    by (simp_all add: sample_dispatcher_def)
  show ?thesis
    using unknown_opcode_PairingNotSupported
        [of "[0x02, 0x00, 0x06, 0x00, 0x0F, 0xAA]" sample_dispatcher fresh_manager, OF h]
      unknown_opcode_PairingNotSupported
        [of "[0x02, 0x00, 0x06, 0x00, 0x0B, 0xAA]" sample_dispatcher fresh_manager, OF h']
    by (simp add: fresh_manager_def send_def pairingFailed_def)
qed


subsection \<open>C6: the confirmation of an indication\<close>




subsection \<open>C4: one request at a time\<close>




subsection \<open>C7: what the operations make of the response\<close>

text \<open>
  C7, as stated, fails on the opcode: a \<open>Read\<close> that is sent a frame with the opcode
  of a Write Response does not return \<open>ErrInvalidResponse\<close>. The frame is not taken
  for the response: \<open>sendReq\<close> answers it with an Error Response and waits on, here
  until the timer fires. And a Write Response of two bytes, one more than its layout
  has, is accepted: \<open>Write\<close> returns nil.
\<close>

theorem mismatched_opcode_not_InvalidResponse:
  "fst (Read Declared 0x0012 (idle_client 23 [EvRsp [WriteResponseCode]]))
     = Inl ErrSeqProtoTimeout
   \<and> written (l2c (snd (Read Declared 0x0012 (idle_client 23 [EvRsp [WriteResponseCode]]))))
       = [[ReadRequestCode, 0x12, 0x00],
          [ErrorResponseCode, WriteResponseCode, 0x00, 0x00, ErrReqNotSupp]]
   \<and> WriteResponseCode \<noteq> ReadResponseCode
   \<and> WriteResponseCode \<noteq> ErrorResponseCode
   \<and> fst (Write Declared 0x0013 [0x01, 0x00]
            (idle_client 23 [EvRsp [WriteResponseCode, 0xFF]])) = Inr ()"
  by code_simp

text \<open>
  C7, amended. The client holds its buffer, as long as the connection's \<open>TxMTU\<close> of
  at least 23; writes succeed; the operation, any of the ten but \<open>ExecuteWrite\<close>,
  accepts its arguments; and \<open>rsp\<close> is the first frame to arrive. Then: an Error
  Response of five bytes makes the operation return \<open>ATTError\<close> with the fifth byte;
  an Error Response of any other length makes it return \<open>ErrInvalidResponse\<close>; a
  frame with the expected response opcode that fails the length test of the operation
  makes it return \<open>ErrInvalidResponse\<close>; and a frame with any other opcode is not
  the response, so that with nothing else arriving the operation ends with
  \<open>ErrSeqProtoTimeout\<close>. The \<open>switch\<close> of \<open>ExecuteWrite\<close> also turns an Error
  Response of five bytes into \<open>ATTError\<close>; nothing is said of what it makes of an
  Error Response of another length.
\<close>

theorem response_validation:
  assumes "chTxBuf c = [buf]" and "int (length buf) = txMTU (l2c c)" and "23 \<le> txMTU (l2c c)"
    and "wfail (l2c c) = []" and "events c = EvRsp rsp # evs" and "rsp \<noteq> []"
    and "fst (perform g r c) \<noteq> Some ErrInvalidArgument"
    and "\<forall>f. r \<noteq> ReqExecuteWrite f"
  shows "(hd rsp = ErrorResponseCode \<and> length rsp = 5
            \<longrightarrow> fst (perform g r c) = Some (ATTError (rsp ! 4)))
         \<and> (hd rsp = ErrorResponseCode \<and> length rsp \<noteq> 5
            \<longrightarrow> fst (perform g r c) = Some ErrInvalidResponse)
         \<and> (hd rsp = rsp_code r \<and> fails_length_check r rsp
            \<longrightarrow> fst (perform g r c) = Some ErrInvalidResponse)
         \<and> (hd rsp \<noteq> ErrorResponseCode \<and> hd rsp \<noteq> rsp_code r \<and> evs = []
             \<and> (\<forall>b. peer (l2c c) b = [])
            \<longrightarrow> fst (perform g r c) = Some ErrSeqProtoTimeout)
         \<and> (hd rsp = ErrorResponseCode \<and> length rsp = 5
            \<longrightarrow> ExecuteWrite_rsp g rsp = Inl (ATTError (rsp ! 4)))"
proof -
  obtain r0 rs where rsp: "rsp = r0 # rs"
    using assms(6) by (cases rsp) auto
  have ev: "events c = EvRsp (r0 # rs) # evs"
    using assms(5) rsp by simp
  have x: "hd rsp = ErrorResponseCode \<and> length rsp = 5
            \<longrightarrow> ExecuteWrite_rsp g rsp = Inl (ATTError (rsp ! 4))"
    using rsp by (auto simp: ExecuteWrite_error_rsp)
  have "(hd rsp = ErrorResponseCode \<and> length rsp = 5
            \<longrightarrow> fst (perform g r c) = Some (ATTError (rsp ! 4)))
         \<and> (hd rsp = ErrorResponseCode \<and> length rsp \<noteq> 5
            \<longrightarrow> fst (perform g r c) = Some ErrInvalidResponse)
         \<and> (hd rsp = rsp_code r \<and> fails_length_check r rsp
            \<longrightarrow> fst (perform g r c) = Some ErrInvalidResponse)
         \<and> (hd rsp \<noteq> ErrorResponseCode \<and> hd rsp \<noteq> rsp_code r \<and> evs = []
             \<and> (\<forall>b. peer (l2c c) b = [])
            \<longrightarrow> fst (perform g r c) = Some ErrSeqProtoTimeout)"
  proof (cases r)
    case (ReqExchangeMTU m)
    have valid: "\<not> (m < DefaultMTU \<or> m > MaxMTU)"
      using assms(7) ReqExchangeMTU by (auto simp: ExchangeMTU_def err_of_def split: if_splits)
    note o = ExchangeMTU_outcome[OF assms(1-4) ev valid, of g]
    show ?thesis
      using o rsp ReqExchangeMTU by (auto simp: error_rsp short_rsp err_of_def)
  next
    case (ReqFindInformation s e)
    have valid: "\<not> (s = 0 \<or> s > e)"
      using assms(7) ReqFindInformation by (auto simp: FindInformation_def err_of_def split: if_splits)
    note o = FindInformation_outcome[OF assms(1-4) ev valid, of g]
    show ?thesis
      using o rsp ReqFindInformation by (auto simp: error_rsp short_rsp err_of_def)
  next
    case (ReqReadByType s e u)
    have valid: "\<not> (s > e \<or> (length u \<noteq> 2 \<and> length u \<noteq> 16))"
      using assms(7) ReqReadByType by (auto simp: ReadByType_def err_of_def split: if_splits)
    note o = ReadByType_outcome[OF assms(1-4) ev valid, of g]
    show ?thesis
      using o rsp ReqReadByType by (auto simp: error_rsp short_rsp err_of_def)
  next
    case (ReqRead h)
    note o = Read_outcome[OF assms(1-4) ev, of g h]
    show ?thesis
      using o rsp ReqRead by (auto simp: error_rsp short_rsp err_of_def)
  next
    case (ReqReadBlob h off)
    note o = ReadBlob_outcome[OF assms(1-4) ev, of g h off]
    show ?thesis
      using o rsp ReqReadBlob by (auto simp: error_rsp short_rsp err_of_def)
  next
    case (ReqReadMultiple hs)
    have valid: "\<not> (length hs < 2 \<or> int (length hs) * 2 > txMTU (l2c c) - 1)"
      using assms(7) ReqReadMultiple by (auto simp: ReadMultiple_def err_of_def split: if_splits)
    note o = ReadMultiple_outcome[OF assms(1-4) ev valid, of g]
    show ?thesis
      using o rsp ReqReadMultiple by (auto simp: error_rsp short_rsp err_of_def)
  next
    case (ReqReadByGroupType s e u)
    have valid: "\<not> (s > e \<or> (length u \<noteq> 2 \<and> length u \<noteq> 16))"
      using assms(7) ReqReadByGroupType by (auto simp: ReadByGroupType_def err_of_def split: if_splits)
    note o = ReadByGroupType_outcome[OF assms(1-4) ev valid, of g]
    show ?thesis
      using o rsp ReqReadByGroupType by (auto simp: error_rsp short_rsp err_of_def)
  next
    case (ReqWrite h v)
    have valid: "\<not> int (length v) > txMTU (l2c c) - 3"
      using assms(7) ReqWrite by (auto simp: Write_def err_of_def split: if_splits)
    note o = Write_outcome[OF assms(1-4) ev valid, of g]
    show ?thesis
      using o rsp ReqWrite by (auto simp: error_rsp short_rsp err_of_def)
  next
    case (ReqPrepareWrite h off v)
    have valid: "\<not> int (length v) > txMTU (l2c c) - 5"
      using assms(7) ReqPrepareWrite by (auto simp: PrepareWrite_def err_of_def split: if_splits)
    note o = PrepareWrite_outcome[OF assms(1-4) ev valid, of g]
    show ?thesis
      using o rsp ReqPrepareWrite by (auto simp: error_rsp short_rsp err_of_def)
  next
    case (ReqExecuteWrite f)
    with assms(8) show ?thesis by simp
  qed
  with x show ?thesis by simp
qed

text \<open>
  Attribute Not Found (0x0A) answering a \<open>Read\<close>; an Error Response of four bytes
  answering a \<open>Write\<close>; an Exchange MTU Response of two bytes; and a Read Response
  arriving for a \<open>ReadBlob\<close>.
\<close>

theorem response_validation_witness:
  "fst (perform Declared (ReqRead 0x0012) (idle_client 23 [EvRsp [0x01, 0x0A, 0x12, 0x00, 0x0A]]))
     = Some (ATTError 0x0A)
   \<and> fst (perform FirstByte (ReqWrite 0x0013 [0x01, 0x00])
            (idle_client 23 [EvRsp [0x01, 0x12, 0x13, 0x00]])) = Some ErrInvalidResponse
   \<and> fst (perform FirstByte (ReqExchangeMTU 400) (idle_client 23 [EvRsp [0x03, 0x64]]))
       = Some ErrInvalidResponse
   \<and> fst (perform Declared (ReqReadBlob 0x0012 22) (idle_client 23 [EvRsp [0x0B, 0xAA]]))
       = Some ErrSeqProtoTimeout"
proof -
  have std: "chTxBuf (idle_client 23 evs) = [replicate 23 0]"
    "int (length (replicate 23 (0 :: byte))) = txMTU (l2c (idle_client 23 evs))"
    "23 \<le> txMTU (l2c (idle_client 23 evs))" "wfail (l2c (idle_client 23 evs)) = []"
    "events (idle_client 23 evs) = evs" "\<forall>b. peer (l2c (idle_client 23 evs)) b = []" for evs
    by (simp_all add: idle_client_def quiet_conn_def)
  have v1: "fst (perform Declared (ReqRead 0x0012)
                   (idle_client 23 [EvRsp [0x01, 0x0A, 0x12, 0x00, 0x0A]]))
              \<noteq> Some ErrInvalidArgument"
    by code_simp
  have v2: "fst (perform FirstByte (ReqWrite 0x0013 [0x01, 0x00])
                   (idle_client 23 [EvRsp [0x01, 0x12, 0x13, 0x00]]))
              \<noteq> Some ErrInvalidArgument"
    by code_simp
  have v3: "fst (perform FirstByte (ReqExchangeMTU 400) (idle_client 23 [EvRsp [0x03, 0x64]]))
              \<noteq> Some ErrInvalidArgument"
    by code_simp
  have v4: "fst (perform Declared (ReqReadBlob 0x0012 22) (idle_client 23 [EvRsp [0x0B, 0xAA]]))
              \<noteq> Some ErrInvalidArgument"
    by code_simp
  note t1 = response_validation[OF std(1-4) _ _ v1, of "[0x01, 0x0A, 0x12, 0x00, 0x0A]" "[]"]
  note t2 = response_validation[OF std(1-4) _ _ v2, of "[0x01, 0x12, 0x13, 0x00]" "[]"]
  note t3 = response_validation[OF std(1-4) _ _ v3, of "[0x03, 0x64]" "[]"]
  note t4 = response_validation[OF std(1-4) _ _ v4, of "[0x0B, 0xAA]" "[]"]
  show ?thesis
    using t1 t2 t3 t4 by (simp add: std opcode_defs)
qed

end
